theory Spec2Isabelle
  imports Complex_Main "HOL-Library.Multiset"
begin

section \<open>Data model\<close>

text \<open>
  The recommender works on pandas objects.  A \<open>DataFrame\<close> with unique labels is its list of
  row labels, its list of column labels and the value stored at each pair of labels; a
  \<open>Series\<close> is a list of (label, value) pairs in index order.  User and movie ids are integers.
  Ratings are \<open>float64\<close> in the source; they are real numbers here, so every statement below
  is about exact arithmetic and says nothing about rounding.  \<open>NaN\<close> is \<open>None\<close> where the
  source can produce it (\<open>reindex\<close>, boolean indexing of a frame).

  The exceptions of the source are values: \<open>KeyError\<close> for a label that is not in an index,
  \<open>ValueError\<close> for an argument a library function refuses, and for the \<open>raise\<close> of
  \<open>predict_all\<close>.
\<close>

datatype error = KeyError | ValueError

record dataframe =
  index :: "int list"
  columns :: "int list"
  cell :: "int \<Rightarrow> int \<Rightarrow> real"

type_synonym series = "(int \<times> real) list"

definition wf_table :: "dataframe \<Rightarrow> bool" where
  "wf_table df \<longleftrightarrow> distinct (index df) \<and> distinct (columns df)
                 \<and> index df \<noteq> [] \<and> columns df \<noteq> []"

definition epsilon :: real where
  "epsilon = 1 / 100000000"

subsection \<open>The pandas operations the source calls\<close>

definition df_T :: "dataframe \<Rightarrow> dataframe" where
  "df_T df = \<lparr>index = columns df, columns = index df, cell = (\<lambda>r c. cell df c r)\<rparr>"

text \<open>\<open>df.loc[label]\<close>: the row as a Series over the columns.\<close>

definition loc_row :: "dataframe \<Rightarrow> int \<Rightarrow> error + series" where
  "loc_row df u =
     (if u \<in> set (index df) then Inr (map (\<lambda>i. (i, cell df u i)) (columns df))
      else Inl KeyError)"

text \<open>\<open>df[label]\<close>: the column as a Series over the index.\<close>

definition getitem_col :: "dataframe \<Rightarrow> int \<Rightarrow> error + series" where
  "getitem_col df c =
     (if c \<in> set (columns df) then Inr (map (\<lambda>u. (u, cell df u c)) (index df))
      else Inl KeyError)"

definition drop_label :: "series \<Rightarrow> int \<Rightarrow> error + series" where
  "drop_label s k =
     (if k \<in> set (map fst s) then Inr (filter (\<lambda>p. fst p \<noteq> k) s) else Inl KeyError)"

definition reindex :: "series \<Rightarrow> int list \<Rightarrow> (int \<times> real option) list" where
  "reindex s labels = map (\<lambda>l. (l, map_of s l)) labels"

definition fillna :: "real \<Rightarrow> (int \<times> real option) list \<Rightarrow> series" where
  "fillna v s = map (\<lambda>p. (fst p, case snd p of None \<Rightarrow> v | Some x \<Rightarrow> x)) s"

text \<open>
  \<open>DataFrame.dot(Series)\<close> and \<open>DataFrame.dot(DataFrame)\<close> match the columns of the left
  operand with the index of the right one by label and raise \<open>ValueError\<close> when the two
  label sets differ.
\<close>

definition dot_series :: "dataframe \<Rightarrow> series \<Rightarrow> error + series" where
  "dot_series A s =
     (if set (columns A) \<noteq> set (map fst s) then Inl ValueError
      else Inr (map (\<lambda>r. (r, \<Sum>p\<leftarrow>s. cell A r (fst p) * snd p)) (index A)))"

definition dot_frame :: "dataframe \<Rightarrow> dataframe \<Rightarrow> error + dataframe" where
  "dot_frame A B =
     (if set (columns A) \<noteq> set (index B) then Inl ValueError
      else Inr \<lparr>index = index A, columns = columns B,
                cell = (\<lambda>r c. \<Sum>k\<leftarrow>columns A. cell A r k * cell B k c)\<rparr>)"

definition series_sum :: "series \<Rightarrow> real" where
  "series_sum s = sum_list (map snd s)"

definition series_div :: "series \<Rightarrow> real \<Rightarrow> series" where
  "series_div s d = map (\<lambda>p. (fst p, snd p / d)) s"

text \<open>\<open>s[mask]\<close> for a boolean Series \<open>mask\<close> over the same labels.\<close>

definition series_mask :: "series \<Rightarrow> (int \<Rightarrow> bool) \<Rightarrow> series" where
  "series_mask s keep = filter (\<lambda>p. keep (fst p)) s"

text \<open>\<open>s.head(n)\<close>: the first \<open>n\<close> entries, all but the last \<open>-n\<close> for a negative \<open>n\<close>.\<close>

definition head :: "int \<Rightarrow> series \<Rightarrow> series" where
  "head n s = (if 0 \<le> n then take (nat n) s else take (length s - nat (- n)) s)"

text \<open>\<open>df.where(cond, 0.0)\<close>: the value where \<open>cond\<close> holds, 0 elsewhere.\<close>

definition where_zero :: "dataframe \<Rightarrow> (int \<Rightarrow> int \<Rightarrow> bool) \<Rightarrow> dataframe" where
  "where_zero df cond = df\<lparr>cell := (\<lambda>r c. if cond r c then cell df r c else 0)\<rparr>"

text \<open>
  \<open>sort_values(ascending=False)\<close> uses the default \<open>kind='quicksort'\<close>, which pandas
  documents as not stable: the result is the entries of the Series in non-increasing order
  of value, and nothing more is promised about entries with equal values.  The sort is
  therefore a parameter of the recommender, and \<open>sorts_descending\<close> is what is known of it.
  \<open>stable_sort_desc\<close> is the sort that keeps equal values in their original order
  (\<open>kind='stable'\<close>, and what the default does on short inputs).
\<close>

definition sorts_descending :: "(series \<Rightarrow> series) \<Rightarrow> bool" where
  "sorts_descending sort_values \<longleftrightarrow>
     (\<forall>s. mset (sort_values s) = mset s \<and> sorted_wrt (\<lambda>a b. snd b \<le> snd a) (sort_values s))"

fun insert_desc :: "int \<times> real \<Rightarrow> series \<Rightarrow> series" where
  "insert_desc x [] = [x]"
| "insert_desc x (y # ys) = (if snd x < snd y then y # insert_desc x ys else x # y # ys)"

definition stable_sort_desc :: "series \<Rightarrow> series" where
  "stable_sort_desc s = foldr insert_desc s []"

subsection \<open>scikit-learn's cosine similarity\<close>

text \<open>
  \<open>cosine_similarity(X)\<close> refuses an array with no row or no column (\<open>ValueError\<close>),
  divides every row by its Euclidean norm, a zero norm being replaced by 1, and returns the
  matrix of dot products of the normalised rows.
\<close>

definition row_norm :: "dataframe \<Rightarrow> int \<Rightarrow> real" where
  "row_norm X u = sqrt (\<Sum>i\<leftarrow>columns X. (cell X u i)\<^sup>2)"

definition normalized :: "dataframe \<Rightarrow> int \<Rightarrow> int \<Rightarrow> real" where
  "normalized X u i = cell X u i / (if row_norm X u = 0 then 1 else row_norm X u)"

definition cosine_cell :: "dataframe \<Rightarrow> int \<Rightarrow> int \<Rightarrow> real" where
  "cosine_cell X u v = (\<Sum>i\<leftarrow>columns X. normalized X u i * normalized X v i)"

definition cosine_similarity :: "dataframe \<Rightarrow> error + (int \<Rightarrow> int \<Rightarrow> real)" where
  "cosine_similarity X =
     (if index X = [] \<or> columns X = [] then Inl ValueError else Inr (cosine_cell X))"

section \<open>collaborative.py\<close>

record collaborative_filtering =
  user_item_matrix :: dataframe
  user_similarity :: "dataframe option"
  item_similarity :: "dataframe option"

definition CollaborativeFiltering :: "dataframe \<Rightarrow> collaborative_filtering" where
  "CollaborativeFiltering m =
     \<lparr>user_item_matrix = m, user_similarity = None, item_similarity = None\<rparr>"

text \<open>
  The frames that \<open>compute_user_similarity\<close> and \<open>compute_item_similarity\<close> build:
  the cosine similarity of the rows (of the columns), labelled by the user ids (the movie
  ids) on both axes.
\<close>

definition user_similarity_frame :: "dataframe \<Rightarrow> error + dataframe" where
  "user_similarity_frame m =
     (case cosine_similarity m of
        Inl e \<Rightarrow> Inl e
      | Inr K \<Rightarrow> Inr \<lparr>index = index m, columns = index m, cell = K\<rparr>)"

definition item_similarity_frame :: "dataframe \<Rightarrow> error + dataframe" where
  "item_similarity_frame m =
     (case cosine_similarity (df_T m) of
        Inl e \<Rightarrow> Inl e
      | Inr K \<Rightarrow> Inr \<lparr>index = columns m, columns = columns m, cell = K\<rparr>)"

definition compute_user_similarity ::
  "collaborative_filtering \<Rightarrow> error + dataframe \<times> collaborative_filtering" where
  "compute_user_similarity cf =
     (case user_similarity_frame (user_item_matrix cf) of
        Inl e \<Rightarrow> Inl e
      | Inr S \<Rightarrow> Inr (S, cf\<lparr>user_similarity := Some S\<rparr>))"

definition compute_item_similarity ::
  "collaborative_filtering \<Rightarrow> error + dataframe \<times> collaborative_filtering" where
  "compute_item_similarity cf =
     (case item_similarity_frame (user_item_matrix cf) of
        Inl e \<Rightarrow> Inl e
      | Inr S \<Rightarrow> Inr (S, cf\<lparr>item_similarity := Some S\<rparr>))"

text \<open>
  A model whose stored similarity matrices, if any, are those of its own rating table:
  a freshly constructed model, or one on which the \<open>compute_\<close> methods have run.
\<close>

definition cache_valid :: "collaborative_filtering \<Rightarrow> bool" where
  "cache_valid cf \<longleftrightarrow>
     (case user_similarity cf of
        None \<Rightarrow> True
      | Some S \<Rightarrow> user_similarity_frame (user_item_matrix cf) = Inr S) \<and>
     (case item_similarity cf of
        None \<Rightarrow> True
      | Some S \<Rightarrow> item_similarity_frame (user_item_matrix cf) = Inr S)"

text \<open>Lines 60-61 and 97-98: the similarity matrix is computed only when none is stored.\<close>

definition get_user_similarity ::
  "collaborative_filtering \<Rightarrow> error + dataframe \<times> collaborative_filtering" where
  "get_user_similarity cf =
     (case user_similarity cf of None \<Rightarrow> compute_user_similarity cf | Some S \<Rightarrow> Inr (S, cf))"

definition get_item_similarity ::
  "collaborative_filtering \<Rightarrow> error + dataframe \<times> collaborative_filtering" where
  "get_item_similarity cf =
     (case item_similarity cf of None \<Rightarrow> compute_item_similarity cf | Some S \<Rightarrow> Inr (S, cf))"

text \<open>Lines 63-77: the Series \<open>predicted_ratings\<close> before the rated movies are removed.\<close>

definition user_predicted_ratings :: "dataframe \<Rightarrow> dataframe \<Rightarrow> int \<Rightarrow> error + series" where
  "user_predicted_ratings m S user_id =
     (case getitem_col S user_id of
        Inl e \<Rightarrow> Inl e
      | Inr similar_users \<Rightarrow>
     (case drop_label similar_users user_id of
        Inl e \<Rightarrow> Inl e
      | Inr similar_users' \<Rightarrow>
          (let similar_users_aligned = fillna 0 (reindex similar_users' (index m))
           in case dot_series (df_T m) similar_users_aligned of
                Inl e \<Rightarrow> Inl e
              | Inr weighted_ratings \<Rightarrow>
                  Inr (series_div weighted_ratings
                         (series_sum similar_users_aligned + epsilon)))))"

definition recommend_user_based ::
  "(series \<Rightarrow> series) \<Rightarrow> collaborative_filtering \<Rightarrow> int \<Rightarrow> int
     \<Rightarrow> (error + series) \<times> collaborative_filtering" where
  "recommend_user_based sort_values cf user_id top_n =
     (case get_user_similarity cf of
        Inl e \<Rightarrow> (Inl e, cf)
      | Inr (S, cf') \<Rightarrow>
          (case loc_row (user_item_matrix cf') user_id of
             Inl e \<Rightarrow> (Inl e, cf')
           | Inr user_ratings \<Rightarrow>
          (case user_predicted_ratings (user_item_matrix cf') S user_id of
             Inl e \<Rightarrow> (Inl e, cf')
           | Inr predicted_ratings \<Rightarrow>
               (let unrated = series_mask predicted_ratings
                                (\<lambda>i. map_of user_ratings i = Some 0)
                in (Inr (head top_n (sort_values unrated)), cf')))))"

text \<open>Lines 100-106: the Series \<open>pred_ratings\<close> before the rated movies are removed.\<close>

definition abs_row_sums :: "dataframe \<Rightarrow> int \<Rightarrow> real" where
  "abs_row_sums S j = (\<Sum>i\<leftarrow>columns S. \<bar>cell S j i\<bar>)"

definition item_predicted_ratings :: "dataframe \<Rightarrow> dataframe \<Rightarrow> series \<Rightarrow> error + series" where
  "item_predicted_ratings m S user_ratings =
     (let user_ratings_aligned = fillna 0 (reindex user_ratings (columns m))
      in case dot_series S user_ratings_aligned of
           Inl e \<Rightarrow> Inl e
         | Inr weighted \<Rightarrow>
             Inr (map (\<lambda>p. (fst p, snd p / (abs_row_sums S (fst p) + epsilon))) weighted))"

definition recommend_item_based ::
  "(series \<Rightarrow> series) \<Rightarrow> collaborative_filtering \<Rightarrow> int \<Rightarrow> int
     \<Rightarrow> (error + series) \<times> collaborative_filtering" where
  "recommend_item_based sort_values cf user_id top_n =
     (case get_item_similarity cf of
        Inl e \<Rightarrow> (Inl e, cf)
      | Inr (S, cf') \<Rightarrow>
          (case loc_row (user_item_matrix cf') user_id of
             Inl e \<Rightarrow> (Inl e, cf')
           | Inr user_ratings \<Rightarrow>
          (case item_predicted_ratings (user_item_matrix cf') S user_ratings of
             Inl e \<Rightarrow> (Inl e, cf')
           | Inr pred_ratings \<Rightarrow>
               (let unrated = series_mask pred_ratings
                                (\<lambda>i. map_of user_ratings i = Some 0)
                in (Inr (head top_n (sort_values unrated)), cf')))))"

section \<open>evaluation.py\<close>

record evaluator =
  ev_user_item_matrix :: dataframe
  train_matrix :: dataframe
  test_matrix :: dataframe
  test_ratio :: real
  random_state :: int

definition Evaluator :: "dataframe \<Rightarrow> real \<Rightarrow> int \<Rightarrow> evaluator" where
  "Evaluator m ratio rs =
     \<lparr>ev_user_item_matrix = m, train_matrix = m,
      test_matrix = \<lparr>index = index m, columns = columns m, cell = (\<lambda>r c. 0)\<rparr>,
      test_ratio = ratio, random_state = rs\<rparr>"

subsection \<open>Train-test split\<close>

text \<open>
  numpy's global random generator is a parameter: \<open>seed\<close> is \<open>np.random.seed\<close>, from the
  seed to the state of the generator, and \<open>choice g a n\<close> is what
  \<open>np.random.choice(a, size=n, replace=False)\<close> draws in state \<open>g\<close>, with the state it
  leaves.  numpy refuses to draw more elements than \<open>a\<close> has, so also one element of an empty
  \<open>a\<close>.  \<open>choice_draws\<close> is what is known of the draw: its elements come from \<open>a\<close>.
\<close>

definition random_choice ::
  "('g \<Rightarrow> int list \<Rightarrow> nat \<Rightarrow> int list \<times> 'g) \<Rightarrow> 'g \<Rightarrow> int list \<Rightarrow> nat
     \<Rightarrow> error + int list \<times> 'g" where
  "random_choice choice g a n = (if length a < n then Inl ValueError else Inr (choice g a n))"

definition choice_draws :: "('g \<Rightarrow> int list \<Rightarrow> nat \<Rightarrow> int list \<times> 'g) \<Rightarrow> bool" where
  "choice_draws choice \<longleftrightarrow> (\<forall>g a n. set (fst (choice g a n)) \<subseteq> set a)"

text \<open>Python's \<open>int(x)\<close> on a float: truncation towards zero.\<close>

definition int_trunc :: "real \<Rightarrow> int" where
  "int_trunc x = (if 0 \<le> x then \<lfloor>x\<rfloor> else \<lceil>x\<rceil>)"

text \<open>\<open>df.loc[user, items] = values\<close>, the value of each item given by \<open>v\<close>.\<close>

definition set_loc :: "dataframe \<Rightarrow> int \<Rightarrow> int list \<Rightarrow> (int \<Rightarrow> real) \<Rightarrow> error + dataframe" where
  "set_loc df u items v =
     (if u \<in> set (index df) \<and> set items \<subseteq> set (columns df)
      then Inr (df\<lparr>cell := (\<lambda>r c. if r = u \<and> c \<in> set items then v c else cell df r c)\<rparr>)
      else Inl KeyError)"

definition rated_items :: "dataframe \<Rightarrow> int \<Rightarrow> int list" where
  "rated_items m user = filter (\<lambda>i. 0 < cell m user i) (columns m)"

definition n_test :: "evaluator \<Rightarrow> int \<Rightarrow> int" where
  "n_test ev user =
     max 1 (int_trunc (real (length (rated_items (ev_user_item_matrix ev) user)) * test_ratio ev))"

text \<open>The body of the loop of \<open>train_test_split\<close>, lines 40-44, for one user.\<close>

definition split_user ::
  "('g \<Rightarrow> int list \<Rightarrow> nat \<Rightarrow> int list \<times> 'g) \<Rightarrow> evaluator \<Rightarrow> int \<Rightarrow> 'g
     \<Rightarrow> error + evaluator \<times> 'g" where
  "split_user choice ev user g =
     (case random_choice choice g (rated_items (ev_user_item_matrix ev) user)
             (nat (n_test ev user)) of
        Inl e \<Rightarrow> Inl e
      | Inr (test_items, g') \<Rightarrow>
     (case set_loc (train_matrix ev) user test_items (\<lambda>i. 0) of
        Inl e \<Rightarrow> Inl e
      | Inr train' \<Rightarrow>
     (case set_loc (test_matrix ev) user test_items (cell (ev_user_item_matrix ev) user) of
        Inl e \<Rightarrow> Inl e
      | Inr test' \<Rightarrow> Inr (ev\<lparr>train_matrix := train', test_matrix := test'\<rparr>, g'))))"

fun split_users ::
  "('g \<Rightarrow> int list \<Rightarrow> nat \<Rightarrow> int list \<times> 'g) \<Rightarrow> evaluator \<Rightarrow> int list \<Rightarrow> 'g
     \<Rightarrow> error + evaluator \<times> 'g" where
  "split_users choice ev [] g = Inr (ev, g)"
| "split_users choice ev (user # users) g =
     (case split_user choice ev user g of
        Inl e \<Rightarrow> Inl e
      | Inr (ev', g') \<Rightarrow> split_users choice ev' users g')"

text \<open>
  \<open>train_test_split\<close> in the state \<open>g0\<close> of the global generator: line 38 replaces that
  state by the seeded one.  The tables the method returns are the \<open>train_matrix\<close> and the
  \<open>test_matrix\<close> of the evaluator it leaves.
\<close>

definition train_test_split ::
  "(int \<Rightarrow> 'g) \<Rightarrow> ('g \<Rightarrow> int list \<Rightarrow> nat \<Rightarrow> int list \<times> 'g) \<Rightarrow> evaluator \<Rightarrow> 'g
     \<Rightarrow> error + evaluator \<times> 'g" where
  "train_test_split seed choice ev g0 =
     split_users choice ev (index (ev_user_item_matrix ev)) (seed (random_state ev))"

subsection \<open>Vectorized prediction\<close>

text \<open>\<open>np.fill_diagonal(df.values, 0)\<close>: the cells at equal positions on both axes.\<close>

definition fill_diagonal_zero :: "dataframe \<Rightarrow> dataframe" where
  "fill_diagonal_zero df =
     df\<lparr>cell := (\<lambda>r c. if (r, c) \<in> set (zip (index df) (columns df)) then 0 else cell df r c)\<rparr>"

definition row_sums :: "dataframe \<Rightarrow> int \<Rightarrow> real" where
  "row_sums df r = (\<Sum>c\<leftarrow>columns df. cell df r c)"

definition div_columns :: "dataframe \<Rightarrow> (int \<Rightarrow> real) \<Rightarrow> dataframe" where
  "div_columns df d = df\<lparr>cell := (\<lambda>r c. cell df r c / d c)\<rparr>"

definition div_rows :: "dataframe \<Rightarrow> (int \<Rightarrow> real) \<Rightarrow> dataframe" where
  "div_rows df d = df\<lparr>cell := (\<lambda>r c. cell df r c / d r)\<rparr>"

text \<open>The condition \<open>self.train_matrix == 0\<close>, false at labels the train table does not have.\<close>

definition unrated_in :: "dataframe \<Rightarrow> int \<Rightarrow> int \<Rightarrow> bool" where
  "unrated_in train r c \<longleftrightarrow> r \<in> set (index train) \<and> c \<in> set (columns train) \<and> cell train r c = 0"

definition predict_all ::
  "evaluator \<Rightarrow> collaborative_filtering \<Rightarrow> string
     \<Rightarrow> (error + dataframe) \<times> collaborative_filtering" where
  "predict_all ev cf_model method =
     (if method = ''user'' then
        (case get_user_similarity cf_model of
           Inl e \<Rightarrow> (Inl e, cf_model)
         | Inr (S, cf') \<Rightarrow>
             (let similarity_matrix = fill_diagonal_zero S;
                  sim_sums = (\<lambda>u. row_sums similarity_matrix u + epsilon)
              in case dot_frame (df_T (train_matrix ev)) (df_T similarity_matrix) of
                   Inl e \<Rightarrow> (Inl e, cf')
                 | Inr W \<Rightarrow>
                     (Inr (where_zero (df_T (div_columns W sim_sums))
                            (unrated_in (train_matrix ev))), cf')))
      else if method = ''item'' then
        (case get_item_similarity cf_model of
           Inl e \<Rightarrow> (Inl e, cf_model)
         | Inr (S, cf') \<Rightarrow>
             (case dot_frame S (df_T (train_matrix ev)) of
                Inl e \<Rightarrow> (Inl e, cf')
              | Inr W \<Rightarrow>
                  (Inr (where_zero (df_T (div_rows W (\<lambda>j. abs_row_sums S j + epsilon)))
                         (unrated_in (train_matrix ev))), cf')))
      else (Inl ValueError, cf_model))"

subsection \<open>RMSE\<close>

text \<open>
  \<open>df[mask]\<close> with a boolean DataFrame \<open>mask\<close> is \<open>df.where(mask)\<close>: a frame of the same
  shape that holds \<open>NaN\<close> wherever the mask is false.  It is given here as the array that
  scikit-learn reads from it, row by row.
\<close>

definition getitem_mask :: "dataframe \<Rightarrow> (int \<Rightarrow> int \<Rightarrow> bool) \<Rightarrow> real option list list" where
  "getitem_mask df keep =
     map (\<lambda>r. map (\<lambda>c. if keep r c then Some (cell df r c) else None) (columns df)) (index df)"

definition positive_in :: "dataframe \<Rightarrow> int \<Rightarrow> int \<Rightarrow> bool" where
  "positive_in test r c \<longleftrightarrow> r \<in> set (index test) \<and> c \<in> set (columns test) \<and> 0 < cell test r c"

text \<open>
  \<open>mean_squared_error\<close> validates its two arguments: arrays with different numbers of rows
  or of columns, an array that holds a \<open>NaN\<close>, and an array with no row or no column are
  refused with \<open>ValueError\<close>.  On two-dimensional arguments it returns the average over the
  columns of the mean squared error of each column.
\<close>

definition check_array :: "real option list list \<Rightarrow> error + real list list" where
  "check_array A =
     (case those (map those A) of
        None \<Rightarrow> Inl ValueError
      | Some B \<Rightarrow> if concat B = [] then Inl ValueError else Inr B)"

definition n_columns :: "real list list \<Rightarrow> nat" where
  "n_columns A = (case A of [] \<Rightarrow> 0 | r # _ \<Rightarrow> length r)"

definition average :: "real list \<Rightarrow> real" where
  "average xs = sum_list xs / real (length xs)"

definition mean_squared_error ::
  "real option list list \<Rightarrow> real option list list \<Rightarrow> error + real" where
  "mean_squared_error y_true y_pred =
     (if length y_true \<noteq> length y_pred then Inl ValueError
      else case check_array y_true of
             Inl e \<Rightarrow> Inl e
           | Inr A \<Rightarrow>
          (case check_array y_pred of
             Inl e \<Rightarrow> Inl e
           | Inr B \<Rightarrow>
               if n_columns A \<noteq> n_columns B then Inl ValueError
               else Inr (average (map (\<lambda>j. average (map (\<lambda>i. (A ! i ! j - B ! i ! j)\<^sup>2)
                                                         [0..<length A]))
                                    [0..<n_columns A]))))"

definition compute_rmse :: "evaluator \<Rightarrow> dataframe \<Rightarrow> error + real" where
  "compute_rmse ev predictions =
     (let test_mask = positive_in (test_matrix ev);
          y_true = getitem_mask (test_matrix ev) test_mask;
          y_pred = getitem_mask predictions test_mask
      in case mean_squared_error y_true y_pred of
           Inl e \<Rightarrow> Inl e
         | Inr mse \<Rightarrow> Inr (sqrt mse))"

section \<open>Closed forms and an example table\<close>

text \<open>
  What the two recommenders compute, written out cell by cell.  \<open>neighbour_weight S u v\<close> is
  the entry of \<open>similar_users_aligned\<close> for \<open>v\<close>: the similarity column of \<open>u\<close> with the
  entry of \<open>u\<close> itself dropped and refilled with 0.  \<open>user_prediction\<close> and
  \<open>item_prediction\<close> are the entries of \<open>predicted_ratings\<close> and \<open>pred_ratings\<close>, and
  \<open>unrated_predictions\<close> is the Series left when the rated movies are removed.
  \<open>table_of\<close> is \<open>pd.DataFrame(rows, index=idx, columns=cols)\<close>, and \<open>example_table\<close> the
  table of the worked example: three users, three movies.
\<close>

definition neighbour_weight :: "dataframe \<Rightarrow> int \<Rightarrow> int \<Rightarrow> real" where
  "neighbour_weight S u v = (if v = u then 0 else cell S v u)"

definition user_prediction :: "dataframe \<Rightarrow> int \<Rightarrow> int \<Rightarrow> real" where
  "user_prediction m u i =
     (\<Sum>v\<leftarrow>index m. cell m v i * (if v = u then 0 else cosine_cell m v u))
       / ((\<Sum>v\<leftarrow>index m. (if v = u then 0 else cosine_cell m v u)) + epsilon)"

definition item_prediction :: "dataframe \<Rightarrow> int \<Rightarrow> int \<Rightarrow> real" where
  "item_prediction m u j =
     (\<Sum>i\<leftarrow>columns m. cosine_cell (df_T m) j i * cell m u i)
       / ((\<Sum>i\<leftarrow>columns m. \<bar>cosine_cell (df_T m) j i\<bar>) + epsilon)"

definition unrated_predictions ::
  "(dataframe \<Rightarrow> int \<Rightarrow> int \<Rightarrow> real) \<Rightarrow> dataframe \<Rightarrow> int \<Rightarrow> series" where
  "unrated_predictions pred m u =
     map (\<lambda>i. (i, pred m u i)) (filter (\<lambda>i. cell m u i = 0) (columns m))"

definition table_of :: "int list \<Rightarrow> int list \<Rightarrow> real list list \<Rightarrow> dataframe" where
  "table_of idx cols rows =
     \<lparr>index = idx, columns = cols,
      cell = (\<lambda>u i. case map_of (zip idx rows) u of
                       None \<Rightarrow> 0
                     | Some r \<Rightarrow> (case map_of (zip cols r) i of None \<Rightarrow> 0 | Some x \<Rightarrow> x))\<rparr>"

definition example_table :: dataframe where
  "example_table = table_of [1, 2, 3] [10, 20, 30] [[5, 3, 0], [4, 2, 5], [0, 0, 4]]"

text \<open>\<open>sparse_table\<close>: user 2 has rated nothing, and nobody has rated movie 20.\<close>

definition sparse_table :: dataframe where
  "sparse_table = table_of [1, 2] [10, 20] [[4, 0], [0, 0]]"

text \<open>The invariant of a rating table: no cell is negative.\<close>

definition nonneg_table :: "dataframe \<Rightarrow> bool" where
  "nonneg_table m \<longleftrightarrow> (\<forall>u\<in>set (index m). \<forall>i\<in>set (columns m). 0 \<le> cell m u i)"

text \<open>\<open>ranked_by_rating_then_id\<close> is the order the specification asks of a recommendation
  list: ratings decrease, and of two entries with the same rating the one with the smaller
  movie id comes first.  \<open>unsorted_table\<close> has its movie columns in the order 20, 10, 5.\<close>

definition ranked_by_rating_then_id :: "series \<Rightarrow> bool" where
  "ranked_by_rating_then_id recs \<longleftrightarrow>
     sorted_wrt (\<lambda>a b. snd b < snd a \<or> (snd b = snd a \<and> fst a < fst b)) recs"

definition unsorted_table :: dataframe where
  "unsorted_table = table_of [1, 2] [20, 10, 5] [[0, 0, 4], [3, 3, 0]]"

text \<open>\<open>partitioned\<close> is the relation between the original table and the two tables of a
  split, cell by cell: the cell went to exactly one of them, and the other holds 0.
  \<open>first_choice\<close> is a draw that takes the first elements (a generator without state).\<close>

definition partitioned :: "dataframe \<Rightarrow> dataframe \<Rightarrow> dataframe \<Rightarrow> bool" where
  "partitioned m train test \<longleftrightarrow>
     (\<forall>u i. (cell train u i = cell m u i \<and> cell test u i = 0)
           \<or> (cell train u i = 0 \<and> cell test u i = cell m u i))"

definition first_choice :: "int \<Rightarrow> int list \<Rightarrow> nat \<Rightarrow> int list \<times> int" where
  "first_choice g a n = (take n a, g)"

text \<open>\<open>same_labels\<close>: the train and test tables carry the labels of the original table.\<close>

definition same_labels :: "evaluator \<Rightarrow> bool" where
  "same_labels ev \<longleftrightarrow>
     index (train_matrix ev) = index (ev_user_item_matrix ev)
   \<and> columns (train_matrix ev) = columns (ev_user_item_matrix ev)
   \<and> index (test_matrix ev) = index (ev_user_item_matrix ev)
   \<and> columns (test_matrix ev) = columns (ev_user_item_matrix ev)"

text \<open>\<open>settled ev ev'\<close>: \<open>ev'\<close> is \<open>ev\<close> after more rounds of the loop: the same original table,
  ratio and labels, and every cell that was already moved to the test table is still
  moved.\<close>

definition settled :: "evaluator \<Rightarrow> evaluator \<Rightarrow> bool" where
  "settled ev ev' \<longleftrightarrow>
     ev_user_item_matrix ev' = ev_user_item_matrix ev
   \<and> test_ratio ev' = test_ratio ev \<and> random_state ev' = random_state ev
   \<and> index (train_matrix ev') = index (train_matrix ev)
   \<and> columns (train_matrix ev') = columns (train_matrix ev)
   \<and> index (test_matrix ev') = index (test_matrix ev)
   \<and> columns (test_matrix ev') = columns (test_matrix ev)
   \<and> (\<forall>r c. cell (train_matrix ev) r c = 0 \<longrightarrow> cell (train_matrix ev') r c = 0)
   \<and> (\<forall>r c. cell (test_matrix ev) r c = cell (ev_user_item_matrix ev) r c
             \<longrightarrow> cell (test_matrix ev') r c = cell (ev_user_item_matrix ev) r c)"

text \<open>\<open>two_movie_table\<close>: one user who has rated two movies.\<close>

definition two_movie_table :: dataframe where
  "two_movie_table = table_of [1] [10, 20] [[4, 3]]"

text \<open>\<open>reversing_sort_desc\<close> also sorts by value in non-increasing order, but leaves equal
  values in the reverse of their original order.  \<open>ascending_table\<close> is the table with
  unsorted columns, its columns put in ascending order.\<close>

definition reversing_sort_desc :: "series \<Rightarrow> series" where
  "reversing_sort_desc s = stable_sort_desc (rev s)"

definition ascending_table :: dataframe where
  "ascending_table = table_of [1, 2] [5, 10, 20] [[4, 0, 0], [0, 3, 3]]"

subsection \<open>Cosine similarity in binary64\<close>

text \<open>The program computes in IEEE binary64, not in the real numbers.
  \<open>round_f64 x\<close> is the binary64 number nearest to \<open>x\<close>, ties going to the even
  significand (overflow and subnormal numbers are left out: ratings and similarities are
  far from both).  Each binary64 operation is the exact operation followed by this rounding.
  \<open>f64_cosine_cell\<close> is \<open>cosine_cell\<close> computed that way, the sums taken from left to right;
  \<open>user_similarity_frame_f64\<close> and \<open>item_similarity_frame_f64\<close> are the frames that
  \<open>compute_user_similarity\<close> and \<open>compute_item_similarity\<close> build from it.
  \<open>equal_ratings_table\<close> has one user, who gave 1.5 to both movies.\<close>

definition round_f64 :: "real \<Rightarrow> real" where
  "round_f64 x =
     (if x = 0 then 0
      else let e = \<lfloor>log 2 \<bar>x\<bar>\<rfloor>;
               u = 2 powr (real_of_int e - 52);
               m = \<bar>x\<bar> / u;
               n = \<lfloor>m\<rfloor>;
               k = (if m - real_of_int n < 1 / 2 then n
                    else if 1 / 2 < m - real_of_int n then n + 1
                    else if even n then n else n + 1)
           in sgn x * real_of_int k * u)"

definition f64_add :: "real \<Rightarrow> real \<Rightarrow> real" where
  "f64_add x y = round_f64 (x + y)"

definition f64_mul :: "real \<Rightarrow> real \<Rightarrow> real" where
  "f64_mul x y = round_f64 (x * y)"

definition f64_div :: "real \<Rightarrow> real \<Rightarrow> real" where
  "f64_div x y = round_f64 (x / y)"

definition f64_sqrt :: "real \<Rightarrow> real" where
  "f64_sqrt x = round_f64 (sqrt x)"

definition f64_dot :: "(int \<Rightarrow> real) \<Rightarrow> (int \<Rightarrow> real) \<Rightarrow> int list \<Rightarrow> real" where
  "f64_dot a b cols = foldl (\<lambda>acc i. f64_add acc (f64_mul (a i) (b i))) 0 cols"

definition f64_row_norm :: "dataframe \<Rightarrow> int \<Rightarrow> real" where
  "f64_row_norm X u = f64_sqrt (f64_dot (cell X u) (cell X u) (columns X))"

definition f64_normalized :: "dataframe \<Rightarrow> int \<Rightarrow> int \<Rightarrow> real" where
  "f64_normalized X u i =
     f64_div (cell X u i) (if f64_row_norm X u = 0 then 1 else f64_row_norm X u)"

definition f64_cosine_cell :: "dataframe \<Rightarrow> int \<Rightarrow> int \<Rightarrow> real" where
  "f64_cosine_cell X u v = f64_dot (f64_normalized X u) (f64_normalized X v) (columns X)"

definition user_similarity_frame_f64 :: "dataframe \<Rightarrow> error + dataframe" where
  "user_similarity_frame_f64 m =
     (if index m = [] \<or> columns m = [] then Inl ValueError
      else Inr \<lparr>index = index m, columns = index m, cell = f64_cosine_cell m\<rparr>)"

definition item_similarity_frame_f64 :: "dataframe \<Rightarrow> error + dataframe" where
  "item_similarity_frame_f64 m =
     (if index (df_T m) = [] \<or> columns (df_T m) = [] then Inl ValueError
      else Inr \<lparr>index = columns m, columns = columns m, cell = f64_cosine_cell (df_T m)\<rparr>)"

definition equal_ratings_table :: dataframe where
  "equal_ratings_table = table_of [1] [10, 20] [[3 / 2, 3 / 2]]"

section \<open>Facts about the pandas operations and the recommenders\<close>

lemma user_similarity_frame_wf:
  "wf_table m \<Longrightarrow> user_similarity_frame m = Inr \<lparr>index = index m, columns = index m, cell = cosine_cell m\<rparr>"
  by (simp add: user_similarity_frame_def cosine_similarity_def wf_table_def)

lemma item_similarity_frame_wf:
  "wf_table m \<Longrightarrow> item_similarity_frame m =
     Inr \<lparr>index = columns m, columns = columns m, cell = cosine_cell (df_T m)\<rparr>"
  by (simp add: item_similarity_frame_def cosine_similarity_def wf_table_def df_T_def)

lemma get_user_similarity_wf:
  assumes "wf_table (user_item_matrix cf)" "cache_valid cf"
  shows "\<exists>cf'. get_user_similarity cf =
            Inr (\<lparr>index = index (user_item_matrix cf), columns = index (user_item_matrix cf),
                  cell = cosine_cell (user_item_matrix cf)\<rparr>, cf')
          \<and> user_item_matrix cf' = user_item_matrix cf"
  using assms
  by (auto simp: get_user_similarity_def compute_user_similarity_def cache_valid_def
      user_similarity_frame_wf split: option.splits)

lemma get_item_similarity_wf:
  assumes "wf_table (user_item_matrix cf)" "cache_valid cf"
  shows "\<exists>cf'. get_item_similarity cf =
            Inr (\<lparr>index = columns (user_item_matrix cf), columns = columns (user_item_matrix cf),
                  cell = cosine_cell (df_T (user_item_matrix cf))\<rparr>, cf')
          \<and> user_item_matrix cf' = user_item_matrix cf"
  using assms
  by (auto simp: get_item_similarity_def compute_item_similarity_def cache_valid_def
      item_similarity_frame_wf split: option.splits)

lemma map_fst_fillna_reindex [simp]: "map fst (fillna v (reindex s ls)) = ls"
  by (simp add: fillna_def reindex_def comp_def)

lemma map_of_drop:
  "map_of (filter (\<lambda>p. fst p \<noteq> u) (map (\<lambda>v. (v, f v)) xs)) v =
     (if v \<in> set xs \<and> v \<noteq> u then Some (f v) else None)"
  by (induction xs) auto

lemma aligned_weights:
  "fillna 0 (reindex (filter (\<lambda>p. fst p \<noteq> u) (map (\<lambda>v. (v, cell S v u)) xs)) xs)
     = map (\<lambda>v. (v, neighbour_weight S u v)) xs"
  by (auto simp: fillna_def reindex_def map_of_drop neighbour_weight_def)

lemma user_predicted_ratings_value:
  assumes "u \<in> set (index m)" "index S = index m" "columns S = index m"
  shows "user_predicted_ratings m S u =
     Inr (map (\<lambda>i. (i, (\<Sum>v\<leftarrow>index m. cell m v i * neighbour_weight S u v)
                        / ((\<Sum>v\<leftarrow>index m. neighbour_weight S u v) + epsilon))) (columns m))"
  using assms
  by (simp add: user_predicted_ratings_def getitem_col_def drop_label_def comp_def
      aligned_weights dot_series_def df_T_def series_div_def series_sum_def Let_def image_comp)

lemma item_predicted_ratings_value:
  assumes "distinct (columns m)" "index S = columns m" "columns S = columns m"
  shows "item_predicted_ratings m S (map (\<lambda>i. (i, cell m u i)) (columns m)) =
     Inr (map (\<lambda>j. (j, (\<Sum>i\<leftarrow>columns m. cell S j i * cell m u i)
                        / (abs_row_sums S j + epsilon))) (columns m))"
proof -
  have al: "fillna 0 (reindex (map (\<lambda>i. (i, cell m u i)) (columns m)) (columns m))
      = map (\<lambda>i. (i, cell m u i)) (columns m)"
    by (auto simp: fillna_def reindex_def map_of_map_restrict)
  show ?thesis using assms
    by (simp add: item_predicted_ratings_def al dot_series_def comp_def image_comp)
qed

lemma loc_row_map_of:
  "distinct (columns m) \<Longrightarrow> i \<in> set (columns m) \<Longrightarrow>
     map_of (map (\<lambda>i. (i, cell m u i)) (columns m)) i = Some (cell m u i)"
  by (simp add: map_of_map_restrict)

lemma set_head: "set (head n s) \<subseteq> set s"
  by (auto simp: head_def dest: in_set_takeD)

lemma sorts_descending_set: "sorts_descending sv \<Longrightarrow> set (sv s) = set s"
  by (metis sorts_descending_def set_mset_mset)

lemma mask_unrated:
  assumes "distinct (columns m)"
  shows "series_mask (map (\<lambda>i. (i, f i)) (columns m))
           (\<lambda>i. map_of (map (\<lambda>i. (i, cell m u i)) (columns m)) i = Some 0)
         = map (\<lambda>i. (i, f i)) (filter (\<lambda>i. cell m u i = 0) (columns m))"
proof -
  have "filter (\<lambda>i. map_of (map (\<lambda>i. (i, cell m u i)) (columns m)) i = Some 0) (columns m)
        = filter (\<lambda>i. cell m u i = 0) (columns m)"
    by (rule filter_cong) (auto simp: map_of_map_restrict)
  then show ?thesis
    by (simp add: series_mask_def filter_map comp_def)
qed

lemma recommend_user_based_value:
  assumes "wf_table (user_item_matrix cf)" "cache_valid cf"
    and "u \<in> set (index (user_item_matrix cf))"
  shows "fst (recommend_user_based sv cf u n) =
           Inr (head n (sv (unrated_predictions user_prediction (user_item_matrix cf) u)))"
proof -
  let ?m = "user_item_matrix cf"
  obtain cf' where g: "get_user_similarity cf =
      Inr (\<lparr>index = index ?m, columns = index ?m, cell = cosine_cell ?m\<rparr>, cf')"
    and m: "user_item_matrix cf' = ?m"
    using get_user_similarity_wf[OF assms(1,2)] by blast
  have d: "distinct (columns ?m)" using assms(1) by (simp add: wf_table_def)
  have p: "user_predicted_ratings ?m \<lparr>index = index ?m, columns = index ?m, cell = cosine_cell ?m\<rparr> u
      = Inr (map (\<lambda>i. (i, user_prediction ?m u i)) (columns ?m))"
    using assms(3)
    by (simp add: user_predicted_ratings_value user_prediction_def neighbour_weight_def
        cong: if_cong)
  show ?thesis
    using assms(3)
    by (simp add: recommend_user_based_def g m p loc_row_def mask_unrated[OF d]
        unrated_predictions_def)
qed

lemma recommend_item_based_value:
  assumes "wf_table (user_item_matrix cf)" "cache_valid cf"
    and "u \<in> set (index (user_item_matrix cf))"
  shows "fst (recommend_item_based sv cf u n) =
           Inr (head n (sv (unrated_predictions item_prediction (user_item_matrix cf) u)))"
proof -
  let ?m = "user_item_matrix cf"
  obtain cf' where g: "get_item_similarity cf =
      Inr (\<lparr>index = columns ?m, columns = columns ?m, cell = cosine_cell (df_T ?m)\<rparr>, cf')"
    and m: "user_item_matrix cf' = ?m"
    using get_item_similarity_wf[OF assms(1,2)] by blast
  have d: "distinct (columns ?m)" using assms(1) by (simp add: wf_table_def)
  have p: "item_predicted_ratings ?m \<lparr>index = columns ?m, columns = columns ?m, cell = cosine_cell (df_T ?m)\<rparr>
        (map (\<lambda>i. (i, cell ?m u i)) (columns ?m))
      = Inr (map (\<lambda>i. (i, item_prediction ?m u i)) (columns ?m))"
    using d
    by (simp add: item_predicted_ratings_value item_prediction_def abs_row_sums_def)
  show ?thesis
    using assms(3)
    by (simp add: recommend_item_based_def g m p loc_row_def mask_unrated[OF d]
        unrated_predictions_def)
qed

lemma recommend_user_based_absent:
  assumes "wf_table (user_item_matrix cf)" "cache_valid cf"
    and "u \<notin> set (index (user_item_matrix cf))"
  shows "fst (recommend_user_based sv cf u n) = Inl KeyError"
proof -
  obtain S cf' where g: "get_user_similarity cf = Inr (S, cf')"
    and m: "user_item_matrix cf' = user_item_matrix cf"
    using get_user_similarity_wf[OF assms(1,2)] by blast
  show ?thesis using assms(3) by (simp add: recommend_user_based_def g m loc_row_def)
qed

lemma recommend_item_based_absent:
  assumes "wf_table (user_item_matrix cf)" "cache_valid cf"
    and "u \<notin> set (index (user_item_matrix cf))"
  shows "fst (recommend_item_based sv cf u n) = Inl KeyError"
proof -
  obtain S cf' where g: "get_item_similarity cf = Inr (S, cf')"
    and m: "user_item_matrix cf' = user_item_matrix cf"
    using get_item_similarity_wf[OF assms(1,2)] by blast
  show ?thesis using assms(3) by (simp add: recommend_item_based_def g m loc_row_def)
qed


lemma wf_example_table: "wf_table example_table"
  by (simp add: wf_table_def example_table_def table_of_def)

lemma cache_valid_fresh: "cache_valid (CollaborativeFiltering m)"
  by (simp add: cache_valid_def CollaborativeFiltering_def)

lemma matrix_fresh [simp]: "user_item_matrix (CollaborativeFiltering m) = m"
  by (simp add: CollaborativeFiltering_def)

lemma mset_insert_desc: "mset (insert_desc x s) = add_mset x (mset s)"
  by (induction s) auto

lemma set_insert_desc: "set (insert_desc x s) = insert x (set s)"
  by (induction s) auto

lemma sorted_insert_desc:
  "sorted_wrt (\<lambda>a b. snd b \<le> snd a) s \<Longrightarrow> sorted_wrt (\<lambda>a b. snd b \<le> snd a) (insert_desc x s)"
  by (induction s) (auto simp: set_insert_desc)

lemma sorts_descending_stable: "sorts_descending stable_sort_desc"
  unfolding sorts_descending_def stable_sort_desc_def
proof (intro allI conjI)
  fix s :: series
  show "mset (foldr insert_desc s []) = mset s"
    by (induction s) (simp_all add: mset_insert_desc)
  show "sorted_wrt (\<lambda>a b. snd b \<le> snd a) (foldr insert_desc s [])"
    by (induction s) (simp_all add: sorted_insert_desc)
qed

text \<open>
  C8: on a table with unique labels, at least one user and one movie, and whatever the
  number of recommendations asked for, \<open>recommend_user_based\<close> and \<open>recommend_item_based\<close>
  raise \<open>KeyError\<close> (user not found) exactly when the user id is not in the row index of the
  table, and return a list of recommendations when it is.
\<close>

theorem user_not_found_iff:
  assumes "wf_table (user_item_matrix cf)" and "cache_valid cf"
  shows "(fst (recommend_user_based sv cf u n) = Inl KeyError
            \<longleftrightarrow> u \<notin> set (index (user_item_matrix cf)))
       \<and> (fst (recommend_item_based sv cf u n) = Inl KeyError
            \<longleftrightarrow> u \<notin> set (index (user_item_matrix cf)))
       \<and> (u \<in> set (index (user_item_matrix cf)) \<longrightarrow>
            (\<exists>recs. fst (recommend_user_based sv cf u n) = Inr recs)
          \<and> (\<exists>recs. fst (recommend_item_based sv cf u n) = Inr recs))"
proof (cases "u \<in> set (index (user_item_matrix cf))")
  case True
  then show ?thesis
    by (simp add: recommend_user_based_value[OF assms] recommend_item_based_value[OF assms])
next
  case False
  then show ?thesis
    by (simp add: recommend_user_based_absent[OF assms] recommend_item_based_absent[OF assms])
qed

text \<open>On the example table: user 7 is not found, user 1 gets a list.\<close>

theorem user_not_found_iff_witness:
  "fst (recommend_user_based stable_sort_desc (CollaborativeFiltering example_table) 7 5)
     = Inl KeyError
   \<and> fst (recommend_item_based stable_sort_desc (CollaborativeFiltering example_table) 7 5)
     = Inl KeyError
   \<and> (\<exists>recs. fst (recommend_user_based stable_sort_desc
                    (CollaborativeFiltering example_table) 1 5) = Inr recs)
   \<and> (\<exists>recs. fst (recommend_item_based stable_sort_desc
                    (CollaborativeFiltering example_table) 1 5) = Inr recs)"
proof -
  have wf: "wf_table (user_item_matrix (CollaborativeFiltering example_table))"
    by (simp add: wf_example_table)
  have i7: "7 \<notin> set (index (user_item_matrix (CollaborativeFiltering example_table)))"
    and i1: "1 \<in> set (index (user_item_matrix (CollaborativeFiltering example_table)))"
    by (simp_all add: example_table_def table_of_def)
  show ?thesis
    using user_not_found_iff[OF wf cache_valid_fresh, of stable_sort_desc 7 5]
      user_not_found_iff[OF wf cache_valid_fresh, of stable_sort_desc 1 5] i7 i1
    by simp
qed

lemma unrated_predictions_mem:
  "p \<in> set (unrated_predictions pred m u) \<Longrightarrow> fst p \<in> set (columns m) \<and> cell m u (fst p) = 0"
  by (auto simp: unrated_predictions_def)

text \<open>
  C4: for a user of the table, every pair returned by \<open>recommend_user_based\<close> and by
  \<open>recommend_item_based\<close> names a movie of the table that the user has not rated: the cell
  of the table for that user and that movie is 0.
\<close>

theorem no_rated_item_recommended:
  assumes "wf_table (user_item_matrix cf)" and "cache_valid cf"
    and "sorts_descending sv" and "u \<in> set (index (user_item_matrix cf))"
  shows "(\<exists>recs. fst (recommend_user_based sv cf u n) = Inr recs
            \<and> (\<forall>p\<in>set recs. fst p \<in> set (columns (user_item_matrix cf))
                            \<and> cell (user_item_matrix cf) u (fst p) = 0))
       \<and> (\<exists>recs. fst (recommend_item_based sv cf u n) = Inr recs
            \<and> (\<forall>p\<in>set recs. fst p \<in> set (columns (user_item_matrix cf))
                            \<and> cell (user_item_matrix cf) u (fst p) = 0))"
proof -
  have sub: "set (head n (sv (unrated_predictions pred (user_item_matrix cf) u)))
          \<subseteq> set (unrated_predictions pred (user_item_matrix cf) u)" for pred
    using set_head sorts_descending_set[OF assms(3)] by metis
  have "\<forall>p\<in>set (head n (sv (unrated_predictions pred (user_item_matrix cf) u))).
      fst p \<in> set (columns (user_item_matrix cf)) \<and> cell (user_item_matrix cf) u (fst p) = 0"
    for pred
    using sub[of pred] unrated_predictions_mem by blast
  then show ?thesis
    by (simp add: recommend_user_based_value[OF assms(1,2,4)]
        recommend_item_based_value[OF assms(1,2,4)])
qed

text \<open>On the example table, for user 1.\<close>

theorem no_rated_item_recommended_witness:
  "(\<exists>recs. fst (recommend_user_based stable_sort_desc (CollaborativeFiltering example_table) 1 5)
            = Inr recs
         \<and> (\<forall>p\<in>set recs. fst p \<in> set (columns example_table)
                         \<and> cell example_table 1 (fst p) = 0))
   \<and> (\<exists>recs. fst (recommend_item_based stable_sort_desc (CollaborativeFiltering example_table) 1 5)
            = Inr recs
         \<and> (\<forall>p\<in>set recs. fst p \<in> set (columns example_table)
                         \<and> cell example_table 1 (fst p) = 0))"
proof -
  have wf: "wf_table (user_item_matrix (CollaborativeFiltering example_table))"
    by (simp add: wf_example_table)
  have i1: "1 \<in> set (index (user_item_matrix (CollaborativeFiltering example_table)))"
    by (simp add: example_table_def table_of_def)
  show ?thesis
    using no_rated_item_recommended[OF wf cache_valid_fresh sorts_descending_stable i1, of 5]
    by simp
qed


section \<open>Cosine similarity\<close>

lemma cosine_cell_sym: "cosine_cell X u v = cosine_cell X v u"
  by (simp add: cosine_cell_def mult.commute)

lemma sum_sq_nonneg: "0 \<le> (\<Sum>i\<leftarrow>xs. (f i :: real)\<^sup>2)"
  by (induction xs) simp_all

lemma sum_sq_zero_iff:
  "(\<Sum>i\<leftarrow>xs. (f i :: real)\<^sup>2) = 0 \<longleftrightarrow> (\<forall>i\<in>set xs. f i = 0)"
proof (induction xs)
  case Nil
  then show ?case by simp
next
  case (Cons a xs)
  have "(f a)\<^sup>2 + (\<Sum>i\<leftarrow>xs. (f i)\<^sup>2) = 0
          \<longleftrightarrow> (f a)\<^sup>2 = 0 \<and> (\<Sum>i\<leftarrow>xs. (f i)\<^sup>2) = 0"
    using sum_sq_nonneg[of f xs] by (intro add_nonneg_eq_0_iff) simp_all
  with Cons show ?case by simp
qed

lemma row_norm_zero_iff: "row_norm X u = 0 \<longleftrightarrow> (\<forall>i\<in>set (columns X). cell X u i = 0)"
  by (simp add: row_norm_def sum_sq_zero_iff)

lemma row_norm_nonneg: "0 \<le> row_norm X u"
  by (simp add: row_norm_def sum_sq_nonneg)

lemma sum_list_div_const: "(\<Sum>i\<leftarrow>xs. f i / (c::real)) = (\<Sum>i\<leftarrow>xs. f i) / c"
  by (induction xs) (simp_all add: add_divide_distrib)

lemma cosine_cell_diag:
  "cosine_cell X u u = (if \<exists>i\<in>set (columns X). cell X u i \<noteq> 0 then 1 else 0)"
proof (cases "\<forall>i\<in>set (columns X). cell X u i = 0")
  case True
  then have "\<forall>i\<in>set (columns X). normalized X u i * normalized X u i = 0"
    by (simp add: normalized_def)
  then have "cosine_cell X u u = 0"
    unfolding cosine_cell_def by (simp add: sum_list_0 cong: map_cong)
  with True show ?thesis by auto
next
  case False
  then have nz: "row_norm X u \<noteq> 0" by (simp add: row_norm_zero_iff)
  have sq: "(row_norm X u)\<^sup>2 = (\<Sum>i\<leftarrow>columns X. (cell X u i)\<^sup>2)"
    by (simp add: row_norm_def sum_sq_nonneg)
  have "cosine_cell X u u = (\<Sum>i\<leftarrow>columns X. (cell X u i)\<^sup>2 / (row_norm X u)\<^sup>2)"
    using nz by (simp add: cosine_cell_def normalized_def power2_eq_square)
  also have "\<dots> = (\<Sum>i\<leftarrow>columns X. (cell X u i)\<^sup>2) / (row_norm X u)\<^sup>2"
    by (rule sum_list_div_const)
  also have "\<dots> = 1" using nz sq by (metis div_self power_not_zero)
  finally show ?thesis using False by auto
qed

lemma cosine_cell_le_1: "cosine_cell X u v \<le> 1"
proof -
  have t: "a * b \<le> (a * a + b * b) / 2" for a b :: real
    using sum_squares_bound[of a b] by (simp add: power2_eq_square)
  have "cosine_cell X u v \<le> (\<Sum>i\<leftarrow>columns X. (normalized X u i * normalized X u i
                                  + normalized X v i * normalized X v i) / 2)"
    unfolding cosine_cell_def by (rule sum_list_mono) (rule t)
  also have "\<dots> = (cosine_cell X u u + cosine_cell X v v) / 2"
    by (simp add: sum_list_div_const sum_list_addf cosine_cell_def)
  also have "\<dots> \<le> 1" by (simp add: cosine_cell_diag)
  finally show ?thesis .
qed

lemma normalized_nonneg: "0 \<le> cell X u i \<Longrightarrow> 0 \<le> normalized X u i"
  using row_norm_nonneg[of X u] by (simp add: normalized_def)

lemma cosine_cell_nonneg:
  assumes "\<forall>i\<in>set (columns X). 0 \<le> cell X u i" "\<forall>i\<in>set (columns X). 0 \<le> cell X v i"
  shows "0 \<le> cosine_cell X u v"
  unfolding cosine_cell_def using assms
  by (intro sum_list_nonneg) (auto simp: normalized_nonneg)

section \<open>Similarity matrices and batched prediction\<close>

lemma compute_user_similarity_wf:
  "wf_table (user_item_matrix cf) \<Longrightarrow> compute_user_similarity cf =
     Inr (\<lparr>index = index (user_item_matrix cf), columns = index (user_item_matrix cf),
           cell = cosine_cell (user_item_matrix cf)\<rparr>,
          cf\<lparr>user_similarity := Some \<lparr>index = index (user_item_matrix cf),
                columns = index (user_item_matrix cf),
                cell = cosine_cell (user_item_matrix cf)\<rparr>\<rparr>)"
  by (simp add: compute_user_similarity_def user_similarity_frame_wf)

lemma compute_item_similarity_wf:
  "wf_table (user_item_matrix cf) \<Longrightarrow> compute_item_similarity cf =
     Inr (\<lparr>index = columns (user_item_matrix cf), columns = columns (user_item_matrix cf),
           cell = cosine_cell (df_T (user_item_matrix cf))\<rparr>,
          cf\<lparr>item_similarity := Some \<lparr>index = columns (user_item_matrix cf),
                columns = columns (user_item_matrix cf),
                cell = cosine_cell (df_T (user_item_matrix cf))\<rparr>\<rparr>)"
  by (simp add: compute_item_similarity_def item_similarity_frame_wf)

text \<open>
  C5: on a table with unique labels, at least one user and one movie,
  \<open>compute_user_similarity\<close> returns a matrix whose diagonal entry is 1 for a user with a
  nonzero rating and 0 for a user whose row is all zero, and \<open>compute_item_similarity\<close>
  one whose diagonal entry is 1 for a movie with a nonzero rating and 0 for a movie whose
  column is all zero; neither raises.
\<close>

theorem self_similarity:
  assumes "wf_table (user_item_matrix cf)"
  shows "(\<exists>S cf'. compute_user_similarity cf = Inr (S, cf')
            \<and> (\<forall>u\<in>set (index (user_item_matrix cf)).
                  cell S u u = (if \<exists>i\<in>set (columns (user_item_matrix cf)).
                                      cell (user_item_matrix cf) u i \<noteq> 0 then 1 else 0)))
       \<and> (\<exists>S cf'. compute_item_similarity cf = Inr (S, cf')
            \<and> (\<forall>j\<in>set (columns (user_item_matrix cf)).
                  cell S j j = (if \<exists>u\<in>set (index (user_item_matrix cf)).
                                      cell (user_item_matrix cf) u j \<noteq> 0 then 1 else 0)))"
  by (simp add: compute_user_similarity_wf[OF assms] compute_item_similarity_wf[OF assms]
      cosine_cell_diag df_T_def)

lemma index_example [simp]: "index example_table = [1, 2, 3]"
  and columns_example [simp]: "columns example_table = [10, 20, 30]"
  by (simp_all add: example_table_def table_of_def)

lemma cell_example:
  "cell example_table 1 10 = 5" "cell example_table 1 20 = 3" "cell example_table 1 30 = 0"
  "cell example_table 2 10 = 4" "cell example_table 2 20 = 2" "cell example_table 2 30 = 5"
  "cell example_table 3 10 = 0" "cell example_table 3 20 = 0" "cell example_table 3 30 = 4"
  by (simp_all add: example_table_def table_of_def)

lemma wf_sparse_table: "wf_table sparse_table"
  by (simp add: wf_table_def sparse_table_def table_of_def)

lemma index_sparse [simp]: "index sparse_table = [1, 2]"
  and columns_sparse [simp]: "columns sparse_table = [10, 20]"
  by (simp_all add: sparse_table_def table_of_def)

lemma cell_sparse:
  "cell sparse_table 1 10 = 4" "cell sparse_table 1 20 = 0"
  "cell sparse_table 2 10 = 0" "cell sparse_table 2 20 = 0"
  by (simp_all add: sparse_table_def table_of_def)

text \<open>On the example table every diagonal entry is 1; on the sparse table the entries of
  user 2 and of movie 20 are 0.\<close>

theorem self_similarity_witness:
  "(\<exists>S cf'. compute_user_similarity (CollaborativeFiltering example_table) = Inr (S, cf')
      \<and> cell S 1 1 = 1 \<and> cell S 2 2 = 1 \<and> cell S 3 3 = 1)
   \<and> (\<exists>S cf'. compute_item_similarity (CollaborativeFiltering example_table) = Inr (S, cf')
      \<and> cell S 10 10 = 1 \<and> cell S 20 20 = 1 \<and> cell S 30 30 = 1)
   \<and> (\<exists>S cf'. compute_user_similarity (CollaborativeFiltering sparse_table) = Inr (S, cf')
      \<and> cell S 1 1 = 1 \<and> cell S 2 2 = 0)
   \<and> (\<exists>S cf'. compute_item_similarity (CollaborativeFiltering sparse_table) = Inr (S, cf')
      \<and> cell S 10 10 = 1 \<and> cell S 20 20 = 0)"
proof -
  have wf: "wf_table (user_item_matrix (CollaborativeFiltering example_table))"
    and wf': "wf_table (user_item_matrix (CollaborativeFiltering sparse_table))"
    by (simp_all add: wf_example_table wf_sparse_table)
  show ?thesis
    using self_similarity[OF wf] self_similarity[OF wf']
    by (simp add: cell_example cell_sparse)
qed

lemma epsilon_pos: "0 < epsilon"
  by (simp add: epsilon_def)

lemma user_cosine_nonneg:
  "nonneg_table m \<Longrightarrow> u \<in> set (index m) \<Longrightarrow> v \<in> set (index m) \<Longrightarrow> 0 \<le> cosine_cell m u v"
  by (rule cosine_cell_nonneg) (auto simp: nonneg_table_def)

lemma item_cosine_nonneg:
  "nonneg_table m \<Longrightarrow> i \<in> set (columns m) \<Longrightarrow> j \<in> set (columns m)
     \<Longrightarrow> 0 \<le> cosine_cell (df_T m) i j"
  by (rule cosine_cell_nonneg) (auto simp: nonneg_table_def df_T_def)

lemma user_prediction_nonneg:
  assumes "nonneg_table m" "u \<in> set (index m)" "i \<in> set (columns m)"
  shows "0 \<le> user_prediction m u i"
proof -
  have w: "0 \<le> (if v = u then 0 else cosine_cell m v u)" if "v \<in> set (index m)" for v
    using user_cosine_nonneg[OF assms(1) that assms(2)] by simp
  have n: "0 \<le> (\<Sum>v\<leftarrow>index m. cell m v i * (if v = u then 0 else cosine_cell m v u))"
  proof (rule sum_list_nonneg)
    fix x assume "x \<in> set (map (\<lambda>v. cell m v i * (if v = u then 0 else cosine_cell m v u)) (index m))"
    then obtain v where v: "v \<in> set (index m)"
      and x: "x = cell m v i * (if v = u then 0 else cosine_cell m v u)" by auto
    have "0 \<le> cell m v i" using assms(1,3) v by (simp add: nonneg_table_def)
    with w[OF v] show "0 \<le> x" unfolding x by (rule mult_nonneg_nonneg[rotated])
  qed
  have d: "0 \<le> (\<Sum>v\<leftarrow>index m. (if v = u then 0 else cosine_cell m v u))"
  proof (rule sum_list_nonneg)
    fix x assume "x \<in> set (map (\<lambda>v. if v = u then 0 else cosine_cell m v u) (index m))"
    then obtain v where "v \<in> set (index m)" "x = (if v = u then 0 else cosine_cell m v u)"
      by auto
    then show "0 \<le> x" using w by simp
  qed
  show ?thesis
    unfolding user_prediction_def using n d epsilon_pos by (intro divide_nonneg_pos) simp_all
qed

lemma item_prediction_nonneg:
  assumes "nonneg_table m" "u \<in> set (index m)" "j \<in> set (columns m)"
  shows "0 \<le> item_prediction m u j"
proof -
  have n: "0 \<le> (\<Sum>i\<leftarrow>columns m. cosine_cell (df_T m) j i * cell m u i)"
  proof (rule sum_list_nonneg)
    fix x assume "x \<in> set (map (\<lambda>i. cosine_cell (df_T m) j i * cell m u i) (columns m))"
    then obtain i where i: "i \<in> set (columns m)"
      and x: "x = cosine_cell (df_T m) j i * cell m u i" by auto
    have "0 \<le> cell m u i" using assms(1,2) i by (simp add: nonneg_table_def)
    with item_cosine_nonneg[OF assms(1) assms(3) i] show "0 \<le> x"
      unfolding x by (rule mult_nonneg_nonneg)
  qed
  have d: "0 \<le> (\<Sum>i\<leftarrow>columns m. \<bar>cosine_cell (df_T m) j i\<bar>)"
    by (rule sum_list_nonneg) auto
  show ?thesis
    unfolding item_prediction_def using n d epsilon_pos by (intro divide_nonneg_pos) simp_all
qed

lemma returned_from_unrated:
  assumes "sorts_descending sv" "p \<in> set (head n (sv (unrated_predictions pred m u)))"
  shows "\<exists>i\<in>set (columns m). cell m u i = 0 \<and> p = (i, pred m u i)"
proof -
  have "p \<in> set (unrated_predictions pred m u)"
    using assms set_head sorts_descending_set[OF assms(1)] by blast
  then show ?thesis by (auto simp: unrated_predictions_def)
qed

lemma nonneg_example_table: "nonneg_table example_table"
  by (simp add: nonneg_table_def cell_example)

lemma zip_same_iff: "(r, c) \<in> set (zip xs xs) \<longleftrightarrow> r = c \<and> r \<in> set xs"
  by (induction xs) auto

lemma row_prediction_eq:
  "(\<Sum>x\<leftarrow>xs. cell t x i * (if u = x then 0 else cosine_cell t u x))
      / ((\<Sum>x\<leftarrow>xs. if u = x then 0 else cosine_cell t u x) + epsilon)
   = (\<Sum>v\<leftarrow>xs. cell t v i * (if v = u then 0 else cosine_cell t v u))
      / ((\<Sum>v\<leftarrow>xs. if v = u then 0 else cosine_cell t v u) + epsilon)"
proof -
  have "(if u = x then 0 else cosine_cell t u x) = (if x = u then 0 else cosine_cell t x u)"
    for x by (auto simp: cosine_cell_sym)
  then show ?thesis by simp
qed

lemma predict_all_user_value:
  assumes "wf_table (train_matrix ev)" "user_item_matrix cf = train_matrix ev" "cache_valid cf"
  shows "\<exists>P. fst (predict_all ev cf ''user'') = Inr P
           \<and> index P = index (train_matrix ev) \<and> columns P = columns (train_matrix ev)
           \<and> (\<forall>u\<in>set (index (train_matrix ev)). \<forall>i\<in>set (columns (train_matrix ev)).
                 cell P u i = (if cell (train_matrix ev) u i = 0
                               then user_prediction (train_matrix ev) u i else 0))"
proof -
  let ?t = "train_matrix ev"
  have wf: "wf_table (user_item_matrix cf)" using assms by simp
  obtain cf' where g: "get_user_similarity cf =
      Inr (\<lparr>index = index ?t, columns = index ?t, cell = cosine_cell ?t\<rparr>, cf')"
    using get_user_similarity_wf[OF wf assms(3)] assms(2) by auto
  show ?thesis
    by (simp add: predict_all_def g fill_diagonal_zero_def dot_frame_def df_T_def
        where_zero_def div_columns_def row_sums_def unrated_in_def zip_same_iff
        user_prediction_def row_prediction_eq cong: if_cong map_cong)
qed

lemma predict_all_item_value:
  assumes "wf_table (train_matrix ev)" "user_item_matrix cf = train_matrix ev" "cache_valid cf"
  shows "\<exists>P. fst (predict_all ev cf ''item'') = Inr P
           \<and> index P = index (train_matrix ev) \<and> columns P = columns (train_matrix ev)
           \<and> (\<forall>u\<in>set (index (train_matrix ev)). \<forall>i\<in>set (columns (train_matrix ev)).
                 cell P u i = (if cell (train_matrix ev) u i = 0
                               then item_prediction (train_matrix ev) u i else 0))"
proof -
  let ?t = "train_matrix ev"
  have wf: "wf_table (user_item_matrix cf)" using assms by simp
  obtain cf' where g: "get_item_similarity cf =
      Inr (\<lparr>index = columns ?t, columns = columns ?t, cell = cosine_cell (df_T ?t)\<rparr>, cf')"
    using get_item_similarity_wf[OF wf assms(3)] assms(2) by auto
  show ?thesis
    by (simp add: predict_all_def g dot_frame_def df_T_def
        where_zero_def div_rows_def abs_row_sums_def unrated_in_def
        item_prediction_def cong: if_cong map_cong)
qed

lemma sorts_descending_length: "sorts_descending sv \<Longrightarrow> length (sv s) = length s"
  by (metis sorts_descending_def size_mset)

lemma sorts_descending_distinct_fst:
  assumes "sorts_descending sv" "distinct (map fst s)"
  shows "distinct (map fst (sv s))"
proof -
  have "mset (map fst (sv s)) = mset (map fst s)"
    using assms(1) by (metis sorts_descending_def mset_map)
  then show ?thesis using assms(2) by (metis mset_eq_imp_distinct_iff)
qed

lemma length_unrated_predictions: "length (unrated_predictions pred m u) \<le> length (columns m)"
  by (simp add: unrated_predictions_def)

lemma map_fst_unrated_predictions:
  "map fst (unrated_predictions pred m u) = filter (\<lambda>i. cell m u i = 0) (columns m)"
  by (simp add: unrated_predictions_def comp_def)

lemma head_all:
  assumes "sorts_descending sv"
  shows "head (int (length (columns m))) (sv (unrated_predictions pred m u))
           = sv (unrated_predictions pred m u)"
  using length_unrated_predictions[of pred m u] sorts_descending_length[OF assms]
  by (simp add: head_def)

lemma all_unrated_listed:
  assumes "sorts_descending sv" "distinct (columns m)" "i \<in> set (columns m)" "cell m u i = 0"
  shows "map_of (head (int (length (columns m))) (sv (unrated_predictions pred m u))) i
           = Some (pred m u i)"
proof -
  have d: "distinct (map fst (sv (unrated_predictions pred m u)))"
    using assms(2) by (intro sorts_descending_distinct_fst[OF assms(1)])
      (simp add: map_fst_unrated_predictions)
  have "(i, pred m u i) \<in> set (unrated_predictions pred m u)"
    using assms(3,4) by (simp add: unrated_predictions_def)
  then have "(i, pred m u i) \<in> set (sv (unrated_predictions pred m u))"
    by (simp add: sorts_descending_set[OF assms(1)])
  then show ?thesis using d by (simp add: head_all[OF assms(1)])
qed

text \<open>
  C1: let the model be built on the train table of the evaluator.  For a user \<open>u\<close> and a
  movie \<open>i\<close> of the table, \<open>predict_all\<close> with method \<open>'user'\<close> returns a frame whose cell
  for \<open>(u, i)\<close> is the rating that \<open>recommend_user_based\<close>, asked for as many
  recommendations as there are movies, lists for \<open>i\<close> when \<open>u\<close> has not rated \<open>i\<close> in the
  train table, and is 0 when \<open>u\<close> has (and then \<open>i\<close> is not listed).  The same holds of
  method \<open>'item'\<close> and \<open>recommend_item_based\<close>.
\<close>

theorem predict_all_matches_single_user:
  assumes "wf_table (train_matrix ev)" and "user_item_matrix cf = train_matrix ev"
    and "cache_valid cf" and "sorts_descending sv"
    and "u \<in> set (index (train_matrix ev))" and "i \<in> set (columns (train_matrix ev))"
  shows "(\<exists>P recs. fst (predict_all ev cf ''user'') = Inr P
            \<and> fst (recommend_user_based sv cf u (int (length (columns (train_matrix ev)))))
                = Inr recs
            \<and> (cell (train_matrix ev) u i = 0 \<longrightarrow> map_of recs i = Some (cell P u i))
            \<and> (cell (train_matrix ev) u i \<noteq> 0 \<longrightarrow> cell P u i = 0 \<and> map_of recs i = None))
       \<and> (\<exists>P recs. fst (predict_all ev cf ''item'') = Inr P
            \<and> fst (recommend_item_based sv cf u (int (length (columns (train_matrix ev)))))
                = Inr recs
            \<and> (cell (train_matrix ev) u i = 0 \<longrightarrow> map_of recs i = Some (cell P u i))
            \<and> (cell (train_matrix ev) u i \<noteq> 0 \<longrightarrow> cell P u i = 0 \<and> map_of recs i = None))"
proof -
  let ?t = "train_matrix ev"
  have wf: "wf_table (user_item_matrix cf)" and uc: "u \<in> set (index (user_item_matrix cf))"
    using assms by simp_all
  have d: "distinct (columns ?t)" using assms(1) by (simp add: wf_table_def)
  have listed: "cell ?t u i = 0 \<Longrightarrow>
      map_of (head (int (length (columns ?t))) (sv (unrated_predictions pred ?t u))) i
        = Some (pred ?t u i)" for pred
    using all_unrated_listed[OF assms(4) d assms(6)] by simp
  have absent: "cell ?t u i \<noteq> 0 \<Longrightarrow>
      map_of (head (int (length (columns ?t))) (sv (unrated_predictions pred ?t u))) i = None"
    for pred
    using returned_from_unrated[OF assms(4), of _ "int (length (columns ?t))" pred ?t u]
    by (fastforce simp: map_of_eq_None_iff)
  obtain P where P: "fst (predict_all ev cf ''user'') = Inr P"
    and Pc: "cell P u i = (if cell ?t u i = 0 then user_prediction ?t u i else 0)"
    using predict_all_user_value[OF assms(1,2,3)] assms(5,6) by blast
  obtain Q where Q: "fst (predict_all ev cf ''item'') = Inr Q"
    and Qc: "cell Q u i = (if cell ?t u i = 0 then item_prediction ?t u i else 0)"
    using predict_all_item_value[OF assms(1,2,3)] assms(5,6) by blast
  show ?thesis
    using listed absent
    by (simp add: P Pc Q Qc recommend_user_based_value[OF wf assms(3) uc]
        recommend_item_based_value[OF wf assms(3) uc] assms(2))
qed

text \<open>On the example table, for user 1 and movie 30.\<close>

theorem predict_all_matches_single_user_witness:
  "(\<exists>P recs. fst (predict_all (Evaluator example_table (1/5) 42)
                   (CollaborativeFiltering example_table) ''user'') = Inr P
      \<and> fst (recommend_user_based stable_sort_desc (CollaborativeFiltering example_table) 1 3)
          = Inr recs
      \<and> map_of recs 30 = Some (cell P 1 30))
   \<and> (\<exists>P recs. fst (predict_all (Evaluator example_table (1/5) 42)
                   (CollaborativeFiltering example_table) ''item'') = Inr P
      \<and> fst (recommend_item_based stable_sort_desc (CollaborativeFiltering example_table) 1 3)
          = Inr recs
      \<and> map_of recs 30 = Some (cell P 1 30))"
proof -
  have t: "train_matrix (Evaluator example_table (1/5) 42) = example_table"
    by (simp add: Evaluator_def)
  have wf: "wf_table (train_matrix (Evaluator example_table (1/5) 42))"
    and m: "user_item_matrix (CollaborativeFiltering example_table)
              = train_matrix (Evaluator example_table (1/5) 42)"
    and u: "1 \<in> set (index (train_matrix (Evaluator example_table (1/5) 42)))"
    and i: "30 \<in> set (columns (train_matrix (Evaluator example_table (1/5) 42)))"
    by (simp_all add: t wf_example_table)
  show ?thesis
    using predict_all_matches_single_user[OF wf m cache_valid_fresh sorts_descending_stable u i]
    by (simp add: t cell_example)
qed

section \<open>Ranking of the recommendations\<close>

lemma wf_unsorted_table: "wf_table unsorted_table"
  by (simp add: wf_table_def unsorted_table_def table_of_def)

lemma index_unsorted [simp]: "index unsorted_table = [1, 2]"
  and columns_unsorted [simp]: "columns unsorted_table = [20, 10, 5]"
  by (simp_all add: unsorted_table_def table_of_def)

lemma cell_unsorted:
  "cell unsorted_table 1 20 = 0" "cell unsorted_table 1 10 = 0" "cell unsorted_table 1 5 = 4"
  "cell unsorted_table 2 20 = 3" "cell unsorted_table 2 10 = 3" "cell unsorted_table 2 5 = 0"
  by (simp_all add: unsorted_table_def table_of_def)

lemma cosine_unsorted_2_1: "cosine_cell unsorted_table 2 1 = 0"
  by (simp add: cosine_cell_def normalized_def cell_unsorted)

lemma user_prediction_unsorted:
  "user_prediction unsorted_table 1 20 = 0" "user_prediction unsorted_table 1 10 = 0"
  by (simp_all add: user_prediction_def cosine_unsorted_2_1)

lemma item_cosine_unsorted:
  "cosine_cell (df_T unsorted_table) 20 5 = 0" "cosine_cell (df_T unsorted_table) 10 5 = 0"
  by (simp_all add: cosine_cell_def normalized_def df_T_def cell_unsorted)

lemma item_prediction_unsorted:
  "item_prediction unsorted_table 1 20 = 0" "item_prediction unsorted_table 1 10 = 0"
  by (simp_all add: item_prediction_def item_cosine_unsorted cell_unsorted)

text \<open>
  The claim C3 as the specification states it fails: with the movie columns in the order
  20, 10, 5 both recommenders predict 0 for the movies 20 and 10 of user 1, and a sort that
  keeps equal values in their order returns movie 20 before movie 10.
\<close>

theorem tie_break_counterexample:
  "fst (recommend_user_based stable_sort_desc (CollaborativeFiltering unsorted_table) 1 2)
     = Inr [(20, 0), (10, 0)]
   \<and> fst (recommend_item_based stable_sort_desc (CollaborativeFiltering unsorted_table) 1 2)
     = Inr [(20, 0), (10, 0)]
   \<and> \<not> ranked_by_rating_then_id [(20, 0), (10, 0)]"
proof -
  have wf: "wf_table (user_item_matrix (CollaborativeFiltering unsorted_table))"
    and u: "1 \<in> set (index (user_item_matrix (CollaborativeFiltering unsorted_table)))"
    by (simp_all add: wf_unsorted_table)
  show ?thesis
    by (simp add: recommend_user_based_value[OF wf cache_valid_fresh u]
        recommend_item_based_value[OF wf cache_valid_fresh u]
        unrated_predictions_def cell_unsorted user_prediction_unsorted
        item_prediction_unsorted stable_sort_desc_def head_def ranked_by_rating_then_id_def)
qed

lemma sorted_head:
  "sorted_wrt R s \<Longrightarrow> sorted_wrt R (head n s)"
  by (simp add: head_def sorted_wrt_take)

lemma length_head: "0 \<le> n \<Longrightarrow> length (head n s) \<le> nat n"
  by (simp add: head_def)

section \<open>Train-test split\<close>

lemma set_loc_Inr:
  "set_loc df u items v = Inr df' \<Longrightarrow>
     index df' = index df \<and> columns df' = columns df
     \<and> cell df' = (\<lambda>r c. if r = u \<and> c \<in> set items then v c else cell df r c)"
  by (auto simp: set_loc_def split: if_splits)

lemma split_user_Inr:
  assumes "split_user choice ev user g = Inr (ev', g')"
  shows "\<exists>items. choice g (rated_items (ev_user_item_matrix ev) user) (nat (n_test ev user))
                    = (items, g')
     \<and> ev_user_item_matrix ev' = ev_user_item_matrix ev
     \<and> test_ratio ev' = test_ratio ev \<and> random_state ev' = random_state ev
     \<and> index (train_matrix ev') = index (train_matrix ev)
     \<and> columns (train_matrix ev') = columns (train_matrix ev)
     \<and> index (test_matrix ev') = index (test_matrix ev)
     \<and> columns (test_matrix ev') = columns (test_matrix ev)
     \<and> cell (train_matrix ev') =
          (\<lambda>r c. if r = user \<and> c \<in> set items then 0 else cell (train_matrix ev) r c)
     \<and> cell (test_matrix ev') =
          (\<lambda>r c. if r = user \<and> c \<in> set items then cell (ev_user_item_matrix ev) user c
                  else cell (test_matrix ev) r c)"
  using assms
  by (auto simp: split_user_def random_choice_def split: sum.splits if_splits prod.splits
      dest!: set_loc_Inr)

lemma split_user_partitioned:
  assumes "split_user choice ev user g = Inr (ev', g')"
    and "partitioned (ev_user_item_matrix ev) (train_matrix ev) (test_matrix ev)"
  shows "partitioned (ev_user_item_matrix ev') (train_matrix ev') (test_matrix ev')"
proof -
  obtain items where
    o: "ev_user_item_matrix ev' = ev_user_item_matrix ev"
    and tr: "cell (train_matrix ev') =
          (\<lambda>r c. if r = user \<and> c \<in> set items then 0 else cell (train_matrix ev) r c)"
    and te: "cell (test_matrix ev') =
          (\<lambda>r c. if r = user \<and> c \<in> set items then cell (ev_user_item_matrix ev) user c
                  else cell (test_matrix ev) r c)"
    using split_user_Inr[OF assms(1)] by blast
  show ?thesis
    using assms(2) unfolding partitioned_def o tr te by auto
qed

lemma split_users_partitioned:
  "split_users choice ev users g = Inr (ev', g') \<Longrightarrow>
   partitioned (ev_user_item_matrix ev) (train_matrix ev) (test_matrix ev) \<Longrightarrow>
   partitioned (ev_user_item_matrix ev') (train_matrix ev') (test_matrix ev')
   \<and> ev_user_item_matrix ev' = ev_user_item_matrix ev
   \<and> index (train_matrix ev') = index (train_matrix ev)
   \<and> columns (train_matrix ev') = columns (train_matrix ev)
   \<and> index (test_matrix ev') = index (test_matrix ev)
   \<and> columns (test_matrix ev') = columns (test_matrix ev)"
proof (induction users arbitrary: ev g)
  case Nil
  then show ?case by simp
next
  case (Cons user users)
  from Cons.prems(1) obtain ev1 g1 where
    s1: "split_user choice ev user g = Inr (ev1, g1)"
    and s2: "split_users choice ev1 users g1 = Inr (ev', g')"
    by (auto split: sum.splits)
  have p1: "partitioned (ev_user_item_matrix ev1) (train_matrix ev1) (test_matrix ev1)"
    using split_user_partitioned[OF s1 Cons.prems(2)] .
  show ?case
    using Cons.IH[OF s2 p1] split_user_Inr[OF s1] by auto
qed

lemma partitioned_Evaluator:
  "partitioned (ev_user_item_matrix (Evaluator m r s)) (train_matrix (Evaluator m r s))
     (test_matrix (Evaluator m r s))"
  by (simp add: partitioned_def Evaluator_def)

lemma n_test_le:
  assumes "0 < test_ratio ev" "test_ratio ev < 1" "rated_items (ev_user_item_matrix ev) user \<noteq> []"
  shows "nat (n_test ev user) \<le> length (rated_items (ev_user_item_matrix ev) user)"
proof -
  let ?n = "length (rated_items (ev_user_item_matrix ev) user)"
  have pos: "1 \<le> ?n" using assms(3) by (cases "rated_items (ev_user_item_matrix ev) user") auto
  have "real ?n * test_ratio ev \<le> real ?n"
    using assms(1,2) by (simp add: mult_left_le)
  then have "\<lfloor>real ?n * test_ratio ev\<rfloor> \<le> int ?n"
    by (metis floor_mono floor_of_nat)
  moreover have "0 \<le> real ?n * test_ratio ev" using assms(1) by simp
  ultimately have "int_trunc (real ?n * test_ratio ev) \<le> int ?n"
    by (simp add: int_trunc_def)
  then show ?thesis using pos by (simp add: n_test_def)
qed

lemma split_user_succeeds:
  assumes "0 < test_ratio ev" "test_ratio ev < 1" "choice_draws choice" "same_labels ev"
    and "user \<in> set (index (ev_user_item_matrix ev))"
    and "rated_items (ev_user_item_matrix ev) user \<noteq> []"
  shows "\<exists>ev' g'. split_user choice ev user g = Inr (ev', g')"
proof -
  obtain items g' where c: "choice g (rated_items (ev_user_item_matrix ev) user)
      (nat (n_test ev user)) = (items, g')" by (cases "choice g (rated_items (ev_user_item_matrix ev) user)
      (nat (n_test ev user))") auto
  have "set items \<subseteq> set (rated_items (ev_user_item_matrix ev) user)"
    using assms(3) c unfolding choice_draws_def by (metis fst_conv)
  then have sub: "set items \<subseteq> set (columns (ev_user_item_matrix ev))"
    by (auto simp: rated_items_def)
  show ?thesis
    using n_test_le[OF assms(1,2,6)] assms(4,5) sub
    by (simp add: split_user_def random_choice_def c set_loc_def same_labels_def)
qed

lemma split_user_same_labels:
  "split_user choice ev user g = Inr (ev', g') \<Longrightarrow> same_labels ev \<Longrightarrow> same_labels ev'"
  by (drule split_user_Inr) (auto simp: same_labels_def)

lemma split_users_succeeds:
  assumes "0 < test_ratio ev" "test_ratio ev < 1" "choice_draws choice" "same_labels ev"
    and "\<forall>user\<in>set users. user \<in> set (index (ev_user_item_matrix ev))
            \<and> rated_items (ev_user_item_matrix ev) user \<noteq> []"
  shows "\<exists>ev' g'. split_users choice ev users g = Inr (ev', g')"
  using assms
proof (induction users arbitrary: ev g)
  case Nil
  then show ?case by simp
next
  case (Cons user users)
  obtain ev1 g1 where s1: "split_user choice ev user g = Inr (ev1, g1)"
    using split_user_succeeds[OF Cons.prems(1,2,3,4)] Cons.prems(5) by force
  have k: "ev_user_item_matrix ev1 = ev_user_item_matrix ev" "test_ratio ev1 = test_ratio ev"
    using split_user_Inr[OF s1] by auto
  have "\<exists>ev' g'. split_users choice ev1 users g1 = Inr (ev', g')"
    using Cons.prems split_user_same_labels[OF s1] by (intro Cons.IH) (simp_all add: k)
  then show ?case by (simp add: s1)
qed

lemma rated_items_nonempty:
  "rated_items m u \<noteq> [] \<longleftrightarrow> (\<exists>i\<in>set (columns m). 0 < cell m u i)"
  by (auto simp: rated_items_def filter_empty_conv)

text \<open>
  C2: for a ratio strictly between 0 and 1, whenever \<open>train_test_split\<close> on a fresh
  evaluator returns, the train and test tables have the labels of the original table, no
  cell is nonzero in both, a cell is nonzero in one of them exactly when it is nonzero in
  the original table, and a nonzero cell holds its original value.  The split does return
  when every user has a rated movie.
\<close>

theorem split_partitions_ratings:
  assumes "0 < ratio" and "ratio < 1" and "choice_draws choice"
  shows "(\<forall>ev' g'. train_test_split seed choice (Evaluator m ratio rs) g0 = Inr (ev', g') \<longrightarrow>
            (\<forall>u i. \<not> (cell (train_matrix ev') u i \<noteq> 0 \<and> cell (test_matrix ev') u i \<noteq> 0)
                \<and> ((cell (train_matrix ev') u i \<noteq> 0 \<or> cell (test_matrix ev') u i \<noteq> 0)
                       \<longleftrightarrow> cell m u i \<noteq> 0)
                \<and> (cell (train_matrix ev') u i \<noteq> 0 \<longrightarrow> cell (train_matrix ev') u i = cell m u i)
                \<and> (cell (test_matrix ev') u i \<noteq> 0 \<longrightarrow> cell (test_matrix ev') u i = cell m u i))
            \<and> index (train_matrix ev') = index m \<and> columns (train_matrix ev') = columns m
            \<and> index (test_matrix ev') = index m \<and> columns (test_matrix ev') = columns m)
       \<and> ((\<forall>u\<in>set (index m). \<exists>i\<in>set (columns m). 0 < cell m u i) \<longrightarrow>
            (\<exists>ev' g'. train_test_split seed choice (Evaluator m ratio rs) g0 = Inr (ev', g')))"
proof -
  let ?ev = "Evaluator m ratio rs"
  have A: "(\<forall>u i. \<not> (cell (train_matrix ev') u i \<noteq> 0 \<and> cell (test_matrix ev') u i \<noteq> 0)
                \<and> ((cell (train_matrix ev') u i \<noteq> 0 \<or> cell (test_matrix ev') u i \<noteq> 0)
                       \<longleftrightarrow> cell m u i \<noteq> 0)
                \<and> (cell (train_matrix ev') u i \<noteq> 0 \<longrightarrow> cell (train_matrix ev') u i = cell m u i)
                \<and> (cell (test_matrix ev') u i \<noteq> 0 \<longrightarrow> cell (test_matrix ev') u i = cell m u i))
            \<and> index (train_matrix ev') = index m \<and> columns (train_matrix ev') = columns m
            \<and> index (test_matrix ev') = index m \<and> columns (test_matrix ev') = columns m"
    if s: "train_test_split seed choice ?ev g0 = Inr (ev', g')" for ev' g'
  proof -
    have s': "split_users choice ?ev (index m) (seed rs) = Inr (ev', g')"
      using s by (simp add: train_test_split_def Evaluator_def)
    have p: "partitioned m (train_matrix ev') (test_matrix ev')"
      and l: "index (train_matrix ev') = index m" "columns (train_matrix ev') = columns m"
        "index (test_matrix ev') = index m" "columns (test_matrix ev') = columns m"
      using split_users_partitioned[OF s' partitioned_Evaluator] by (auto simp: Evaluator_def)
    have "\<not> (cell (train_matrix ev') u i \<noteq> 0 \<and> cell (test_matrix ev') u i \<noteq> 0)
                \<and> ((cell (train_matrix ev') u i \<noteq> 0 \<or> cell (test_matrix ev') u i \<noteq> 0)
                       \<longleftrightarrow> cell m u i \<noteq> 0)
                \<and> (cell (train_matrix ev') u i \<noteq> 0 \<longrightarrow> cell (train_matrix ev') u i = cell m u i)
                \<and> (cell (test_matrix ev') u i \<noteq> 0 \<longrightarrow> cell (test_matrix ev') u i = cell m u i)"
      for u i
      using p[unfolded partitioned_def, rule_format, of u i] by auto
    then show ?thesis using l by simp
  qed
  have B: "\<exists>ev' g'. train_test_split seed choice ?ev g0 = Inr (ev', g')"
    if r: "\<forall>u\<in>set (index m). \<exists>i\<in>set (columns m). 0 < cell m u i"
  proof -
    have "\<exists>ev' g'. split_users choice ?ev (index m) (seed rs) = Inr (ev', g')"
      using assms r
      by (intro split_users_succeeds)
        (simp_all add: Evaluator_def same_labels_def rated_items_nonempty)
    then show ?thesis by (simp add: train_test_split_def Evaluator_def)
  qed
  show ?thesis using A B by blast
qed

lemma choice_draws_first: "choice_draws first_choice"
  by (auto simp: choice_draws_def first_choice_def dest: in_set_takeD)

lemma settled_refl: "settled ev ev"
  by (simp add: settled_def)

lemma settled_trans: "settled a b \<Longrightarrow> settled b c \<Longrightarrow> settled a c"
  by (simp add: settled_def)

lemma split_user_settled:
  "split_user choice ev user g = Inr (ev', g') \<Longrightarrow> settled ev ev'"
  by (drule split_user_Inr) (auto simp: settled_def)

lemma split_users_settled:
  "split_users choice ev users g = Inr (ev', g') \<Longrightarrow> settled ev ev'"
proof (induction users arbitrary: ev g)
  case Nil
  then show ?case by (simp add: settled_refl)
next
  case (Cons user users)
  from Cons.prems obtain ev1 g1 where
    s1: "split_user choice ev user g = Inr (ev1, g1)"
    and s2: "split_users choice ev1 users g1 = Inr (ev', g')"
    by (auto split: sum.splits)
  show ?case
    using settled_trans[OF split_user_settled[OF s1] Cons.IH[OF s2]] .
qed

lemma set_loc_same:
  assumes "u \<in> set (index df)" "set items \<subseteq> set (columns df)"
    and "\<forall>c\<in>set items. cell df u c = v c"
  shows "set_loc df u items v = Inr df"
proof -
  have "(\<lambda>r c. if r = u \<and> c \<in> set items then v c else cell df r c) = cell df"
    using assms(3) by (auto simp: fun_eq_iff)
  then show ?thesis using assms(1,2) by (simp add: set_loc_def)
qed

lemma split_user_labels:
  assumes "split_user choice ev user g = Inr (ev', g')"
  shows "user \<in> set (index (train_matrix ev)) \<and> user \<in> set (index (test_matrix ev))
     \<and> set (fst (choice g (rated_items (ev_user_item_matrix ev) user) (nat (n_test ev user))))
          \<subseteq> set (columns (train_matrix ev)) \<inter> set (columns (test_matrix ev))
     \<and> length (rated_items (ev_user_item_matrix ev) user) \<ge> nat (n_test ev user)"
proof -
  let ?a = "rated_items (ev_user_item_matrix ev) user"
  from assms have le: "nat (n_test ev user) \<le> length ?a"
    by (simp add: split_user_def random_choice_def split: if_splits)
  obtain items g1 where c: "choice g ?a (nat (n_test ev user)) = (items, g1)"
    by (cases "choice g ?a (nat (n_test ev user))") auto
  from assms le c obtain train' where
    a: "set_loc (train_matrix ev) user items (\<lambda>i. 0) = Inr train'"
    by (simp add: split_user_def random_choice_def split: sum.splits)
  from assms le c a obtain test' where
    b: "set_loc (test_matrix ev) user items (cell (ev_user_item_matrix ev) user) = Inr test'"
    by (simp add: split_user_def random_choice_def split: sum.splits)
  from a have "user \<in> set (index (train_matrix ev)) \<and> set items \<subseteq> set (columns (train_matrix ev))"
    by (simp add: set_loc_def split: if_splits)
  moreover from b have "user \<in> set (index (test_matrix ev)) \<and> set items \<subseteq> set (columns (test_matrix ev))"
    by (simp add: set_loc_def split: if_splits)
  ultimately show ?thesis using le c by simp
qed

lemma split_user_again:
  assumes s1: "split_user choice ev user g = Inr (ev1, g1)" and st: "settled ev1 ev'"
  shows "split_user choice ev' user g = Inr (ev', g1)"
proof -
  obtain items where
    c: "choice g (rated_items (ev_user_item_matrix ev) user) (nat (n_test ev user)) = (items, g1)"
    and o: "ev_user_item_matrix ev1 = ev_user_item_matrix ev" "test_ratio ev1 = test_ratio ev"
    and l: "index (train_matrix ev1) = index (train_matrix ev)"
      "columns (train_matrix ev1) = columns (train_matrix ev)"
      "index (test_matrix ev1) = index (test_matrix ev)"
      "columns (test_matrix ev1) = columns (test_matrix ev)"
    and tr: "cell (train_matrix ev1) =
          (\<lambda>r c. if r = user \<and> c \<in> set items then 0 else cell (train_matrix ev) r c)"
    and te: "cell (test_matrix ev1) =
          (\<lambda>r c. if r = user \<and> c \<in> set items then cell (ev_user_item_matrix ev) user c
                  else cell (test_matrix ev) r c)"
    using split_user_Inr[OF s1] by blast
  have lab: "user \<in> set (index (train_matrix ev))" "user \<in> set (index (test_matrix ev))"
    "set items \<subseteq> set (columns (train_matrix ev))" "set items \<subseteq> set (columns (test_matrix ev))"
    "nat (n_test ev user) \<le> length (rated_items (ev_user_item_matrix ev) user)"
    using split_user_labels[OF s1] c by auto
  have o': "ev_user_item_matrix ev' = ev_user_item_matrix ev" "test_ratio ev' = test_ratio ev"
    and l': "index (train_matrix ev') = index (train_matrix ev)"
      "columns (train_matrix ev') = columns (train_matrix ev)"
      "index (test_matrix ev') = index (test_matrix ev)"
      "columns (test_matrix ev') = columns (test_matrix ev)"
    using st o l by (simp_all add: settled_def)
  have z: "\<forall>c\<in>set items. cell (train_matrix ev') user c = 0"
    using st tr by (simp add: settled_def)
  have y: "\<forall>c\<in>set items. cell (test_matrix ev') user c = cell (ev_user_item_matrix ev) user c"
    using st te o by (simp add: settled_def)
  have n: "n_test ev' user = n_test ev user" by (simp add: n_test_def o')
  have a: "set_loc (train_matrix ev') user items (\<lambda>i. 0) = Inr (train_matrix ev')"
    using lab z by (intro set_loc_same) (simp_all add: l')
  have b: "set_loc (test_matrix ev') user items (cell (ev_user_item_matrix ev) user)
             = Inr (test_matrix ev')"
    using lab y by (intro set_loc_same) (simp_all add: l')
  show ?thesis
    using lab(5) by (simp add: split_user_def random_choice_def o' n c a b)
qed

lemma split_users_again:
  "split_users choice ev users g = Inr (ev', g') \<Longrightarrow>
     split_users choice ev' users g = Inr (ev', g')"
proof (induction users arbitrary: ev g)
  case Nil
  then show ?case by simp
next
  case (Cons user users)
  from Cons.prems obtain ev1 g1 where
    s1: "split_user choice ev user g = Inr (ev1, g1)"
    and s2: "split_users choice ev1 users g1 = Inr (ev', g')"
    by (auto split: sum.splits)
  have a: "split_user choice ev' user g = Inr (ev', g1)"
    using split_user_again[OF s1 split_users_settled[OF s2]] .
  have b: "split_users choice ev' users g1 = Inr (ev', g')"
    using Cons.IH[OF s2] .
  show ?case by (simp add: a b)
qed

text \<open>
  C9: two runs of \<open>train_test_split\<close> on the same table, ratio and seed give the same
  result, whatever state the global random generator is in before each run; and a second
  run on the evaluator that the first run has left returns the same train and test tables
  again.
\<close>

theorem same_seed_same_split:
  "train_test_split seed choice (Evaluator m ratio rs) g1
     = train_test_split seed choice (Evaluator m ratio rs) g2
   \<and> (\<forall>ev' g'. train_test_split seed choice (Evaluator m ratio rs) g1 = Inr (ev', g') \<longrightarrow>
         train_test_split seed choice ev' g2 = Inr (ev', g'))"
proof -
  have r: "train_test_split seed choice ev' g2 = Inr (ev', g')"
    if s: "train_test_split seed choice (Evaluator m ratio rs) g1 = Inr (ev', g')" for ev' g'
  proof -
    have s': "split_users choice (Evaluator m ratio rs) (index m) (seed rs) = Inr (ev', g')"
      using s by (simp add: train_test_split_def Evaluator_def)
    have k: "ev_user_item_matrix ev' = m" "random_state ev' = rs"
      using split_users_settled[OF s'] by (simp_all add: settled_def Evaluator_def)
    show ?thesis
      unfolding train_test_split_def k using split_users_again[OF s'] .
  qed
  have e: "train_test_split seed choice (Evaluator m ratio rs) g1
     = train_test_split seed choice (Evaluator m ratio rs) g2"
    unfolding train_test_split_def ..
  show ?thesis using e r by blast
qed

lemma split_user_error:
  assumes "split_user choice ev user g = Inl e" "choice_draws choice" "same_labels ev"
    and "user \<in> set (index (ev_user_item_matrix ev))"
  shows "e = ValueError"
proof (cases "length (rated_items (ev_user_item_matrix ev) user) < nat (n_test ev user)")
  case True
  with assms(1) show ?thesis by (simp add: split_user_def random_choice_def)
next
  case False
  obtain items g' where c: "choice g (rated_items (ev_user_item_matrix ev) user)
      (nat (n_test ev user)) = (items, g')"
    by (cases "choice g (rated_items (ev_user_item_matrix ev) user) (nat (n_test ev user))") auto
  have "set items \<subseteq> set (rated_items (ev_user_item_matrix ev) user)"
    using assms(2) c unfolding choice_draws_def by (metis fst_conv)
  then have sub: "set items \<subseteq> set (columns (ev_user_item_matrix ev))"
    by (auto simp: rated_items_def)
  have "split_user choice ev user g \<noteq> Inl e"
    using False assms(3,4) sub
    by (simp add: split_user_def random_choice_def c set_loc_def same_labels_def)
  with assms(1) show ?thesis by simp
qed

lemma split_user_unrated:
  "rated_items (ev_user_item_matrix ev) user = [] \<Longrightarrow> split_user choice ev user g = Inl ValueError"
  by (simp add: split_user_def random_choice_def n_test_def int_trunc_def)

lemma split_users_unrated:
  assumes "choice_draws choice" "same_labels ev"
    and "set users \<subseteq> set (index (ev_user_item_matrix ev))"
    and "\<exists>user\<in>set users. rated_items (ev_user_item_matrix ev) user = []"
  shows "split_users choice ev users g = Inl ValueError"
  using assms
proof (induction users arbitrary: ev g)
  case Nil
  then show ?case by simp
next
  case (Cons user users)
  show ?case
  proof (cases "split_user choice ev user g")
    case (Inl e)
    have "e = ValueError"
      using split_user_error[OF Inl Cons.prems(1,2)] Cons.prems(3) by simp
    with Inl show ?thesis by simp
  next
    case (Inr p)
    obtain ev1 g1 where p: "p = (ev1, g1)" by (cases p)
    have s1: "split_user choice ev user g = Inr (ev1, g1)" using Inr p by simp
    have k: "ev_user_item_matrix ev1 = ev_user_item_matrix ev"
      using split_user_Inr[OF s1] by auto
    have "rated_items (ev_user_item_matrix ev) user \<noteq> []"
      using s1 split_user_unrated[of ev user choice g] by auto
    then have ex: "\<exists>user\<in>set users. rated_items (ev_user_item_matrix ev1) user = []"
      using Cons.prems(4) by (auto simp: k)
    have "split_users choice ev1 users g1 = Inl ValueError"
      using Cons.prems(1,3) split_user_same_labels[OF s1 Cons.prems(2)] ex
      by (intro Cons.IH) (simp_all add: k)
    then show ?thesis by (simp add: s1)
  qed
qed

lemma split_raises_for_unrated_user:
  assumes "choice_draws choice" and "u \<in> set (index m)"
    and "\<forall>i\<in>set (columns m). cell m u i \<le> 0"
  shows "train_test_split seed choice (Evaluator m ratio rs) g0 = Inl ValueError"
proof -
  have "rated_items m u = []"
    using assms(3) by (auto simp: rated_items_def filter_empty_conv)
  then have "split_users choice (Evaluator m ratio rs) (index m) (seed rs) = Inl ValueError"
    using assms(1,2)
    by (intro split_users_unrated) (auto simp: Evaluator_def same_labels_def)
  then show ?thesis by (simp add: train_test_split_def Evaluator_def)
qed

text \<open>
  C7 does not hold of the code: on the sparse table, where user 2 has rated nothing, the
  split raises \<open>ValueError\<close> instead of leaving the row of user 2 untouched.
\<close>

theorem split_fails_on_sparse_table:
  "train_test_split (\<lambda>s. s) first_choice (Evaluator sparse_table (1/5) 42) 0 = Inl ValueError"
  by (rule split_raises_for_unrated_user[OF choice_draws_first, of 2])
    (simp_all add: cell_sparse)

lemma split_example_succeeds:
  "\<exists>ev' g'. train_test_split (\<lambda>s. s) first_choice (Evaluator example_table (1/5) 42) g0
      = Inr (ev', g')"
proof -
  have "\<exists>ev' g'. split_users first_choice (Evaluator example_table (1/5) 42)
      (index example_table) 42 = Inr (ev', g')"
    by (intro split_users_succeeds choice_draws_first)
      (simp_all add: Evaluator_def same_labels_def rated_items_nonempty cell_example)
  then show ?thesis by (simp add: train_test_split_def Evaluator_def)
qed

text \<open>The split of the example table with ratio 1/5.\<close>

theorem split_partitions_ratings_witness:
  "\<exists>ev' g'. train_test_split (\<lambda>s. s) first_choice (Evaluator example_table (1/5) 42) 0
       = Inr (ev', g')
     \<and> (\<forall>u i. \<not> (cell (train_matrix ev') u i \<noteq> 0 \<and> cell (test_matrix ev') u i \<noteq> 0)
            \<and> ((cell (train_matrix ev') u i \<noteq> 0 \<or> cell (test_matrix ev') u i \<noteq> 0)
                  \<longleftrightarrow> cell example_table u i \<noteq> 0))
     \<and> index (train_matrix ev') = [1, 2, 3] \<and> columns (test_matrix ev') = [10, 20, 30]"
proof -
  have r: "(0::real) < 1/5" "(1/5::real) < 1" by simp_all
  obtain ev' g' where s: "train_test_split (\<lambda>s. s) first_choice
      (Evaluator example_table (1/5) 42) 0 = Inr (ev', g')"
    using split_example_succeeds by blast
  show ?thesis
    using split_partitions_ratings[OF r choice_draws_first, of "\<lambda>s. s" example_table 42 0] s
    by simp
qed

text \<open>Two runs on the example table, in generator states 0 and 7.\<close>

theorem same_seed_same_split_witness:
  "train_test_split (\<lambda>s. s) first_choice (Evaluator example_table (1/5) 42) 0
     = train_test_split (\<lambda>s. s) first_choice (Evaluator example_table (1/5) 42) 7
   \<and> (\<exists>ev' g'. train_test_split (\<lambda>s. s) first_choice (Evaluator example_table (1/5) 42) 0
                   = Inr (ev', g')
         \<and> train_test_split (\<lambda>s. s) first_choice ev' 7 = Inr (ev', g'))"
proof -
  obtain ev' g' where s: "train_test_split (\<lambda>s. s) first_choice
      (Evaluator example_table (1/5) 42) 0 = Inr (ev', g')"
    using split_example_succeeds by blast
  show ?thesis
    using same_seed_same_split[of "\<lambda>s. s" first_choice example_table "1/5" 42 0 7] s
    by blast
qed

section \<open>RMSE\<close>

lemma those_None_iff: "those xs = None \<longleftrightarrow> None \<in> set xs"
  by (induction xs) (auto split: option.splits)

lemma check_array_nan:
  assumes "r \<in> set A" "None \<in> set r"
  shows "check_array A = Inl ValueError"
proof -
  have "None \<in> set (map those A)"
    using assms by (force simp: those_None_iff[symmetric] image_iff)
  then have "those (map those A) = None" by (simp add: those_None_iff)
  then show ?thesis by (simp add: check_array_def)
qed

lemma mean_squared_error_nan:
  assumes "r \<in> set y_true" "None \<in> set r"
  shows "mean_squared_error y_true y_pred = Inl ValueError"
  by (simp add: mean_squared_error_def check_array_nan[OF assms])

lemma compute_rmse_unmasked_cell:
  assumes "u \<in> set (index (test_matrix ev))" "i \<in> set (columns (test_matrix ev))"
    and "cell (test_matrix ev) u i \<le> 0"
  shows "compute_rmse ev predictions = Inl ValueError"
proof -
  let ?t = "test_matrix ev"
  let ?row = "map (\<lambda>c. if positive_in ?t u c then Some (cell ?t u c) else None) (columns ?t)"
  have "?row \<in> set (getitem_mask ?t (positive_in ?t))"
    using assms(1) by (auto simp: getitem_mask_def)
  moreover have "None \<in> set ?row"
    using assms(2,3) by (force simp: positive_in_def image_iff)
  ultimately have "mean_squared_error (getitem_mask ?t (positive_in ?t))
      (getitem_mask predictions (positive_in ?t)) = Inl ValueError"
    by (rule mean_squared_error_nan)
  then show ?thesis by (simp add: compute_rmse_def)
qed

lemma split_two_movie_table:
  "\<exists>ev'. train_test_split (\<lambda>s. s) first_choice (Evaluator two_movie_table (1/5) 42) 0
            = Inr (ev', 42)
     \<and> index (test_matrix ev') = [1] \<and> columns (test_matrix ev') = [10, 20]
     \<and> cell (test_matrix ev') 1 10 = 4 \<and> cell (test_matrix ev') 1 20 = 0
     \<and> cell (train_matrix ev') 1 10 = 0 \<and> cell (train_matrix ev') 1 20 = 3"
  by (simp add: train_test_split_def Evaluator_def two_movie_table_def table_of_def
      split_user_def rated_items_def n_test_def int_trunc_def random_choice_def
      first_choice_def set_loc_def)

text \<open>
  C6 does not hold of the code: split the table of one user and two movies; movie 10 is
  held out, so the test table has the nonzero cell 4 for movie 10 and 0 for movie 20.
  \<open>compute_rmse\<close> on predictions equal to the test table raises \<open>ValueError\<close> instead of
  returning 0, because the frame indexed by the mask keeps a \<open>NaN\<close> for movie 20.
\<close>

theorem compute_rmse_raises_on_held_out_split:
  "\<exists>ev'. train_test_split (\<lambda>s. s) first_choice (Evaluator two_movie_table (1/5) 42) 0
            = Inr (ev', 42)
     \<and> cell (test_matrix ev') 1 10 = 4 \<and> cell (test_matrix ev') 1 20 = 0
     \<and> compute_rmse ev' (test_matrix ev') = Inl ValueError"
proof -
  obtain ev' where s: "train_test_split (\<lambda>s. s) first_choice
        (Evaluator two_movie_table (1/5) 42) 0 = Inr (ev', 42)"
    and l: "index (test_matrix ev') = [1]" "columns (test_matrix ev') = [10, 20]"
    and c: "cell (test_matrix ev') 1 10 = 4" "cell (test_matrix ev') 1 20 = 0"
    using split_two_movie_table by blast
  have "compute_rmse ev' (test_matrix ev') = Inl ValueError"
    by (rule compute_rmse_unmasked_cell[of 1 _ 20]) (simp_all add: l c)
  with s c show ?thesis by blast
qed

section \<open>Order among equal ratings\<close>

lemma insert_desc_ranked:
  assumes "ranked_by_rating_then_id ys" "\<forall>y\<in>set ys. fst x < fst y"
  shows "ranked_by_rating_then_id (insert_desc x ys)"
  using assms
proof (induction ys)
  case Nil
  then show ?case by (simp add: ranked_by_rating_then_id_def)
next
  case (Cons y ys)
  have tl: "ranked_by_rating_then_id ys" and hd: "\<forall>z\<in>set ys. snd z < snd y \<or> (snd z = snd y \<and> fst y < fst z)"
    using Cons.prems(1) by (simp_all add: ranked_by_rating_then_id_def)
  show ?case
  proof (cases "snd x < snd y")
    case True
    have "ranked_by_rating_then_id (insert_desc x ys)"
      using Cons.IH[OF tl] Cons.prems(2) by simp
    then show ?thesis
      using True hd by (auto simp: ranked_by_rating_then_id_def set_insert_desc)
  next
    case False
    have "snd z \<le> snd y" if "z \<in> set ys" for z using hd that by auto
    then show ?thesis
      using False Cons.prems by (fastforce simp: ranked_by_rating_then_id_def)
  qed
qed

lemma stable_sort_ranked:
  "sorted_wrt (\<lambda>a b. fst a < fst b) s \<Longrightarrow> ranked_by_rating_then_id (stable_sort_desc s)"
proof (induction s)
  case Nil
  then show ?case by (simp add: stable_sort_desc_def ranked_by_rating_then_id_def)
next
  case (Cons x s)
  have "set (stable_sort_desc s) = set s"
    using sorts_descending_set[OF sorts_descending_stable] .
  then have "\<forall>y\<in>set (stable_sort_desc s). fst x < fst y"
    using Cons.prems by simp
  moreover have "ranked_by_rating_then_id (stable_sort_desc s)"
    using Cons by simp
  ultimately have "ranked_by_rating_then_id (insert_desc x (stable_sort_desc s))"
    by (intro insert_desc_ranked)
  then show ?case by (simp add: stable_sort_desc_def)
qed

lemma unrated_predictions_ascending:
  "sorted_wrt (<) (columns m) \<Longrightarrow> sorted_wrt (\<lambda>a b. fst a < fst b) (unrated_predictions pred m u)"
  by (simp add: unrated_predictions_def sorted_wrt_map sorted_wrt_filter)

lemma ranked_head: "ranked_by_rating_then_id s \<Longrightarrow> ranked_by_rating_then_id (head n s)"
  unfolding ranked_by_rating_then_id_def by (rule sorted_head)

lemma sorts_descending_reversing: "sorts_descending reversing_sort_desc"
  using sorts_descending_stable
  by (simp add: sorts_descending_def reversing_sort_desc_def)

lemma index_ascending [simp]: "index ascending_table = [1, 2]"
  and columns_ascending [simp]: "columns ascending_table = [5, 10, 20]"
  by (simp_all add: ascending_table_def table_of_def)

lemma wf_ascending_table: "wf_table ascending_table"
  by (simp add: wf_table_def)

lemma cell_ascending:
  "cell ascending_table 1 5 = 4" "cell ascending_table 1 10 = 0" "cell ascending_table 1 20 = 0"
  "cell ascending_table 2 5 = 0" "cell ascending_table 2 10 = 3" "cell ascending_table 2 20 = 3"
  by (simp_all add: ascending_table_def table_of_def)

lemma user_prediction_ascending:
  "user_prediction ascending_table 1 10 = 0" "user_prediction ascending_table 1 20 = 0"
proof -
  have "cosine_cell ascending_table 2 1 = 0"
    by (simp add: cosine_cell_def normalized_def cell_ascending)
  then show "user_prediction ascending_table 1 10 = 0" "user_prediction ascending_table 1 20 = 0"
    by (simp_all add: user_prediction_def)
qed

text \<open>
  Ascending columns alone do not give the order by movie id either: a sort that meets
  everything \<open>sort_values\<close> promises may return movie 20 before movie 10.
\<close>

lemma tie_order_not_fixed_by_sort:
  "sorts_descending reversing_sort_desc
   \<and> fst (recommend_user_based reversing_sort_desc (CollaborativeFiltering ascending_table) 1 2)
       = Inr [(20, 0), (10, 0)]"
proof -
  have wf: "wf_table (user_item_matrix (CollaborativeFiltering ascending_table))"
    and u: "1 \<in> set (index (user_item_matrix (CollaborativeFiltering ascending_table)))"
    by (simp_all add: wf_ascending_table)
  show ?thesis
    by (simp add: sorts_descending_reversing
        recommend_user_based_value[OF wf cache_valid_fresh u]
        unrated_predictions_def cell_ascending user_prediction_ascending
        reversing_sort_desc_def stable_sort_desc_def head_def)
qed

text \<open>
  C3, amended: for a user of the table and a number \<open>n \<ge> 0\<close> of recommendations, the
  list returned by \<open>recommend_user_based\<close> and by \<open>recommend_item_based\<close> is sorted by
  predicted rating in non-increasing order and has at most \<open>n\<close> entries, whatever the sort
  does with equal ratings.  Entries with equal ratings are in ascending order of movie id
  when the columns of the table are in ascending order and the sort keeps equal values in
  their order; the code itself does not order them by movie id.
\<close>

theorem recommendations_ranked:
  assumes "wf_table (user_item_matrix cf)" and "cache_valid cf"
    and "sorts_descending sv" and "u \<in> set (index (user_item_matrix cf))" and "0 \<le> n"
  shows "(\<exists>recs. fst (recommend_user_based sv cf u n) = Inr recs
            \<and> sorted_wrt (\<lambda>a b. snd b \<le> snd a) recs \<and> length recs \<le> nat n)
       \<and> (\<exists>recs. fst (recommend_item_based sv cf u n) = Inr recs
            \<and> sorted_wrt (\<lambda>a b. snd b \<le> snd a) recs \<and> length recs \<le> nat n)
       \<and> (sorted_wrt (<) (columns (user_item_matrix cf)) \<longrightarrow>
            (\<exists>recs. fst (recommend_user_based stable_sort_desc cf u n) = Inr recs
               \<and> ranked_by_rating_then_id recs)
          \<and> (\<exists>recs. fst (recommend_item_based stable_sort_desc cf u n) = Inr recs
               \<and> ranked_by_rating_then_id recs))"
proof -
  let ?m = "user_item_matrix cf"
  have s: "sorted_wrt (\<lambda>a b. snd b \<le> snd a) (head n (sv s))" for s
    using assms(3) by (intro sorted_head) (simp add: sorts_descending_def)
  have r: "ranked_by_rating_then_id (head n (stable_sort_desc (unrated_predictions pred ?m u)))"
    if "sorted_wrt (<) (columns ?m)" for pred
    using that by (intro ranked_head stable_sort_ranked unrated_predictions_ascending)
  show ?thesis
    using s r
    by (simp add: recommend_user_based_value[OF assms(1,2,4)]
        recommend_item_based_value[OF assms(1,2,4)] length_head[OF assms(5)])
qed

text \<open>On the table with ascending columns, for user 1 and a stable sort.\<close>

theorem recommendations_ranked_witness:
  "(\<exists>recs. fst (recommend_user_based stable_sort_desc (CollaborativeFiltering ascending_table) 1 2)
              = Inr recs
         \<and> sorted_wrt (\<lambda>a b. snd b \<le> snd a) recs \<and> length recs \<le> 2
         \<and> ranked_by_rating_then_id recs)
   \<and> (\<exists>recs. fst (recommend_item_based stable_sort_desc (CollaborativeFiltering ascending_table) 1 2)
              = Inr recs
         \<and> sorted_wrt (\<lambda>a b. snd b \<le> snd a) recs \<and> length recs \<le> 2
         \<and> ranked_by_rating_then_id recs)"
proof -
  have wf: "wf_table (user_item_matrix (CollaborativeFiltering ascending_table))"
    and u: "1 \<in> set (index (user_item_matrix (CollaborativeFiltering ascending_table)))"
    by (simp_all add: wf_ascending_table)
  have a: "sorted_wrt (<) (columns (user_item_matrix (CollaborativeFiltering ascending_table)))"
    by simp
  show ?thesis
    using recommendations_ranked[OF wf cache_valid_fresh sorts_descending_stable u, of 2] a
    by auto
qed

section \<open>RMSE over a full mask\<close>

lemma those_map_Some: "those (map (\<lambda>x. Some (f x)) xs) = Some (map f xs)"
  by (induction xs) simp_all

lemma getitem_mask_full:
  assumes "\<forall>u\<in>set (index t). \<forall>i\<in>set (columns t). 0 < cell t u i"
    and "index X = index t" and "columns X = columns t"
  shows "getitem_mask X (positive_in t)
           = map (\<lambda>r. map (\<lambda>c. Some (cell X r c)) (columns t)) (index t)"
  using assms by (simp add: getitem_mask_def positive_in_def)

lemma check_array_full:
  assumes "idx \<noteq> []" "cols \<noteq> []"
  shows "check_array (map (\<lambda>r. map (\<lambda>c. Some (f r c)) cols) idx)
           = Inr (map (\<lambda>r. map (f r) cols) idx)"
proof -
  have "those (map those (map (\<lambda>r. map (\<lambda>c. Some (f r c)) cols) idx))
      = Some (map (\<lambda>r. map (f r) cols) idx)"
    by (simp add: comp_def those_map_Some)
  moreover have "concat (map (\<lambda>r. map (f r) cols) idx) \<noteq> []"
    using assms by (cases idx) auto
  ultimately show ?thesis by (simp add: check_array_def)
qed

lemma n_columns_full: "idx \<noteq> [] \<Longrightarrow> n_columns (map (\<lambda>r. map (f r) cols) idx) = length cols"
  by (cases idx) (simp_all add: n_columns_def)

lemma average_nonneg: "(\<And>x. x \<in> set xs \<Longrightarrow> 0 \<le> x) \<Longrightarrow> 0 \<le> average xs"
  by (simp add: average_def sum_list_nonneg)

lemma average_zero_iff:
  assumes "\<And>x. x \<in> set xs \<Longrightarrow> 0 \<le> x" "xs \<noteq> []"
  shows "average xs = 0 \<longleftrightarrow> (\<forall>x\<in>set xs. x = 0)"
  using assms by (simp add: average_def sum_list_nonneg_eq_0_iff)

lemma mean_squared_error_full:
  assumes "idx \<noteq> []" "cols \<noteq> []"
  shows "mean_squared_error (map (\<lambda>r. map (\<lambda>c. Some (f r c)) cols) idx)
                            (map (\<lambda>r. map (\<lambda>c. Some (h r c)) cols) idx)
     = Inr (average (map (\<lambda>j. average (map (\<lambda>i. (f (idx ! i) (cols ! j) - h (idx ! i) (cols ! j))\<^sup>2)
                                           [0..<length idx]))
                        [0..<length cols]))"
proof -
  let ?A = "map (\<lambda>r. map (f r) cols) idx" and ?B = "map (\<lambda>r. map (h r) cols) idx"
  have inner: "map (\<lambda>i. (?A ! i ! j - ?B ! i ! j)\<^sup>2) [0..<length idx]
      = map (\<lambda>i. (f (idx ! i) (cols ! j) - h (idx ! i) (cols ! j))\<^sup>2) [0..<length idx]"
    if "j < length cols" for j
    by (rule map_cong) (use that in simp_all)
  have outer: "map (\<lambda>j. average (map (\<lambda>i. (?A ! i ! j - ?B ! i ! j)\<^sup>2) [0..<length idx]))
        [0..<length cols]
      = map (\<lambda>j. average (map (\<lambda>i. (f (idx ! i) (cols ! j) - h (idx ! i) (cols ! j))\<^sup>2)
                                [0..<length idx])) [0..<length cols]"
    by (rule map_cong) (simp_all add: inner)
  show ?thesis
    by (simp add: mean_squared_error_def check_array_full[OF assms]
        n_columns_full[OF assms(1)] outer)
qed

lemma mse_nonneg_and_zero:
  fixes f h :: "int \<Rightarrow> int \<Rightarrow> real"
  assumes "idx \<noteq> []" "cols \<noteq> []"
  defines "v \<equiv> average (map (\<lambda>j. average (map (\<lambda>i. (f (idx ! i) (cols ! j) - h (idx ! i) (cols ! j))\<^sup>2)
                                           [0..<length idx]))
                        [0..<length cols])"
  shows "0 \<le> v" and "v = 0 \<longleftrightarrow> (\<forall>u\<in>set idx. \<forall>c\<in>set cols. h u c = f u c)"
proof -
  let ?col = "\<lambda>j. average (map (\<lambda>i. (f (idx ! i) (cols ! j) - h (idx ! i) (cols ! j))\<^sup>2)
                          [0..<length idx])"
  have cn: "0 \<le> ?col j" for j by (rule average_nonneg) auto
  have cz: "?col j = 0 \<longleftrightarrow> (\<forall>i<length idx. h (idx ! i) (cols ! j) = f (idx ! i) (cols ! j))" for j
    using assms(1) by (subst average_zero_iff) auto
  show "0 \<le> v" unfolding v_def by (rule average_nonneg) (use cn in auto)
  have "v = 0 \<longleftrightarrow> (\<forall>j<length cols. ?col j = 0)"
    unfolding v_def using assms(2) cn by (subst average_zero_iff) auto
  also have "\<dots> \<longleftrightarrow> (\<forall>j<length cols. \<forall>i<length idx. h (idx ! i) (cols ! j) = f (idx ! i) (cols ! j))"
    by (simp add: cz)
  also have "\<dots> \<longleftrightarrow> (\<forall>u\<in>set idx. \<forall>c\<in>set cols. h u c = f u c)"
    by (metis in_set_conv_nth)
  finally show "v = 0 \<longleftrightarrow> (\<forall>u\<in>set idx. \<forall>c\<in>set cols. h u c = f u c)" .
qed

text \<open>
  What does hold of \<open>compute_rmse\<close>: when every cell of the test table is positive, so
  that the mask leaves no \<open>NaN\<close>, it returns a value that is not negative, and that is
  0 exactly when the predictions equal the test table in every cell.
\<close>

lemma compute_rmse_full_mask:
  assumes "index (test_matrix ev) \<noteq> []" and "columns (test_matrix ev) \<noteq> []"
    and "\<forall>u\<in>set (index (test_matrix ev)). \<forall>i\<in>set (columns (test_matrix ev)).
           0 < cell (test_matrix ev) u i"
    and "index P = index (test_matrix ev)" and "columns P = columns (test_matrix ev)"
  shows "\<exists>r. compute_rmse ev P = Inr r \<and> 0 \<le> r
           \<and> (r = 0 \<longleftrightarrow> (\<forall>u\<in>set (index (test_matrix ev)). \<forall>i\<in>set (columns (test_matrix ev)).
                             cell P u i = cell (test_matrix ev) u i))"
proof -
  let ?t = "test_matrix ev"
  have a: "getitem_mask ?t (positive_in ?t)
      = map (\<lambda>r. map (\<lambda>c. Some (cell ?t r c)) (columns ?t)) (index ?t)"
    by (rule getitem_mask_full[OF assms(3)]) simp_all
  have b: "getitem_mask P (positive_in ?t)
      = map (\<lambda>r. map (\<lambda>c. Some (cell P r c)) (columns ?t)) (index ?t)"
    by (rule getitem_mask_full[OF assms(3,4,5)])
  show ?thesis
    using mse_nonneg_and_zero[OF assms(1,2), of "cell ?t" "cell P"]
    by (simp add: compute_rmse_def a b mean_squared_error_full[OF assms(1,2)])
qed

section \<open>Similarity in binary64\<close>

lemma floor_log2:
  assumes "0 < x" "2 powr real_of_int e \<le> x" "x < 2 powr (real_of_int e + 1)"
  shows "\<lfloor>log 2 x\<rfloor> = e"
proof (rule floor_unique)
  show "real_of_int e \<le> log 2 x" using assms(1,2) by (simp add: le_log_iff)
  show "log 2 x < real_of_int e + 1" using assms(1,3) by (simp add: log_less_iff)
qed

lemma round_f64_down:
  assumes "0 < x" "2 powr real_of_int e \<le> x" "x < 2 powr (real_of_int e + 1)"
    and "real_of_int n * 2 powr (real_of_int e - 52) \<le> x"
    and "x < (real_of_int n + 1 / 2) * 2 powr (real_of_int e - 52)"
  shows "round_f64 x = real_of_int n * 2 powr (real_of_int e - 52)"
proof -
  let ?u = "2 powr (real_of_int e - 52)"
  define m where "m = x / ?u"
  have u: "0 < ?u" by simp
  have ax: "\<bar>x\<bar> = x" and x0: "x \<noteq> 0" and sx: "sgn x = 1" using assms(1) by simp_all
  have e: "\<lfloor>log 2 x\<rfloor> = e" using floor_log2[OF assms(1,2,3)] .
  have lo: "real_of_int n \<le> m" using assms(4) u by (simp add: m_def pos_le_divide_eq)
  have hi: "m < real_of_int n + 1 / 2" using assms(5) u by (simp add: m_def pos_divide_less_eq)
  have n: "\<lfloor>m\<rfloor> = n" by (rule floor_unique) (use lo hi in simp_all)
  have k: "(if m - real_of_int n < 1 / 2 then n
            else if 1 / 2 < m - real_of_int n then n + 1
            else if even n then n else n + 1) = n"
    using hi by simp
  show ?thesis
    unfolding round_f64_def Let_def ax e m_def[symmetric] n k using x0 sx by simp
qed

lemma round_f64_up:
  assumes "0 < x" "2 powr real_of_int e \<le> x" "x < 2 powr (real_of_int e + 1)"
    and "(real_of_int n + 1 / 2) * 2 powr (real_of_int e - 52) < x"
    and "x < (real_of_int n + 1) * 2 powr (real_of_int e - 52)"
  shows "round_f64 x = real_of_int (n + 1) * 2 powr (real_of_int e - 52)"
proof -
  let ?u = "2 powr (real_of_int e - 52)"
  define m where "m = x / ?u"
  have u: "0 < ?u" by simp
  have ax: "\<bar>x\<bar> = x" and x0: "x \<noteq> 0" and sx: "sgn x = 1" using assms(1) by simp_all
  have e: "\<lfloor>log 2 x\<rfloor> = e" using floor_log2[OF assms(1,2,3)] .
  have lo: "real_of_int n + 1 / 2 < m" using assms(4) u by (simp add: m_def pos_less_divide_eq)
  have hi: "m < real_of_int n + 1" using assms(5) u by (simp add: m_def pos_divide_less_eq)
  have n: "\<lfloor>m\<rfloor> = n" by (rule floor_unique) (use lo hi in simp_all)
  have k: "(if m - real_of_int n < 1 / 2 then n
            else if 1 / 2 < m - real_of_int n then n + 1
            else if even n then n else n + 1) = n + 1"
    using lo by simp
  show ?thesis
    unfolding round_f64_def Let_def ax e m_def[symmetric] n k using x0 sx by simp
qed

lemma round_f64_9_4: "round_f64 (9 / 4) = 9 / 4"
  using round_f64_down[of "9 / 4" 1 "9 * 2 ^ 49"] by (simp add: powr_minus)

lemma round_f64_9_2: "round_f64 (9 / 2) = 9 / 2"
  using round_f64_down[of "9 / 2" 2 "9 * 2 ^ 49"] by (simp add: powr_minus)

lemma round_f64_sqrt: "round_f64 (sqrt (9 / 2)) = 4776788754394329 / 2 ^ 51"
proof -
  have a: "2 \<le> sqrt (9 / 2)" by (rule real_le_rsqrt) simp
  have b: "sqrt (9 / 2) < 4" by (rule real_less_lsqrt) simp_all
  have c: "4776788754394329 / 2 ^ 51 \<le> sqrt (9 / 2)"
    by (rule real_le_rsqrt) (simp add: power2_eq_square)
  have d: "sqrt (9 / 2) < (4776788754394329 + 1 / 2) / 2 ^ 51"
    by (rule real_less_lsqrt) (simp_all add: power2_eq_square)
  have p: "0 < sqrt (9 / 2)" by simp
  show ?thesis
    using round_f64_down[of "sqrt (9 / 2)" 1 4776788754394329] a b c d p
    by (simp add: powr_minus)
qed

lemma round_f64_quotient:
  "round_f64 ((3 / 2) / (4776788754394329 / 2 ^ 51)) = 6369051672525773 / 2 ^ 53"
  using round_f64_down[of "(3 / 2) / (4776788754394329 / 2 ^ 51)" "- 1" 6369051672525773]
  by (simp add: powr_minus)

lemma round_f64_square:
  "round_f64 ((6369051672525773 / 2 ^ 53) * (6369051672525773 / 2 ^ 53))
     = 4503599627370497 / 2 ^ 53"
  using round_f64_up[of "(6369051672525773 / 2 ^ 53) * (6369051672525773 / 2 ^ 53)" "- 1"
      4503599627370496]
  by (simp add: powr_minus)

lemma round_f64_half: "round_f64 (4503599627370497 / 2 ^ 53) = 4503599627370497 / 2 ^ 53"
  using round_f64_down[of "4503599627370497 / 2 ^ 53" "- 1" 4503599627370497]
  by (simp add: powr_minus)

lemma round_f64_sum:
  "round_f64 (4503599627370497 / 2 ^ 53 + 4503599627370497 / 2 ^ 53) = 1 + 1 / 2 ^ 52"
  using round_f64_down[of "4503599627370497 / 2 ^ 53 + 4503599627370497 / 2 ^ 53" 0
      4503599627370497]
  by (simp add: powr_minus)

lemma cell_equal_ratings:
  "cell equal_ratings_table 1 10 = 3 / 2" "cell equal_ratings_table 1 20 = 3 / 2"
  by (simp_all add: equal_ratings_table_def table_of_def)

lemma columns_equal_ratings [simp]: "columns equal_ratings_table = [10, 20]"
  and index_equal_ratings [simp]: "index equal_ratings_table = [1]"
  by (simp_all add: equal_ratings_table_def table_of_def)

lemma f64_row_norm_equal_ratings:
  "f64_row_norm equal_ratings_table 1 = 4776788754394329 / 2 ^ 51"
proof -
  have "(3 / 2 :: real) * (3 / 2) = 9 / 4" "(0 :: real) + 9 / 4 = 9 / 4"
    "(9 / 4 :: real) + 9 / 4 = 9 / 2"
    by simp_all
  then have m: "f64_mul (3 / 2) (3 / 2) = 9 / 4"
    and a: "f64_add 0 (9 / 4) = 9 / 4"
    and b: "f64_add (9 / 4) (9 / 4) = 9 / 2"
    unfolding f64_mul_def f64_add_def by (simp_all only: round_f64_9_4 round_f64_9_2)
  have "f64_dot (cell equal_ratings_table 1) (cell equal_ratings_table 1)
          (columns equal_ratings_table) = 9 / 2"
    unfolding f64_dot_def columns_equal_ratings foldl.simps cell_equal_ratings m a b ..
  then show ?thesis
    unfolding f64_row_norm_def f64_sqrt_def by (simp only: round_f64_sqrt)
qed

lemma f64_normalized_equal_ratings:
  "f64_normalized equal_ratings_table 1 10 = 6369051672525773 / 2 ^ 53"
  "f64_normalized equal_ratings_table 1 20 = 6369051672525773 / 2 ^ 53"
proof -
  have nz: "(4776788754394329 :: real) / 2 ^ 51 \<noteq> 0"
    by simp
  show "f64_normalized equal_ratings_table 1 10 = 6369051672525773 / 2 ^ 53"
    unfolding f64_normalized_def f64_row_norm_equal_ratings cell_equal_ratings f64_div_def
    by (simp only: nz if_False round_f64_quotient)
  show "f64_normalized equal_ratings_table 1 20 = 6369051672525773 / 2 ^ 53"
    unfolding f64_normalized_def f64_row_norm_equal_ratings cell_equal_ratings f64_div_def
    by (simp only: nz if_False round_f64_quotient)
qed

lemma f64_cosine_equal_ratings: "f64_cosine_cell equal_ratings_table 1 1 = 1 + 1 / 2 ^ 52"
proof -
  have m: "f64_mul (6369051672525773 / 2 ^ 53) (6369051672525773 / 2 ^ 53)
      = 4503599627370497 / 2 ^ 53"
    unfolding f64_mul_def by (rule round_f64_square)
  have a: "f64_add 0 (4503599627370497 / 2 ^ 53) = 4503599627370497 / 2 ^ 53"
    unfolding f64_add_def by (simp only: add_0_left round_f64_half)
  have b: "f64_add (4503599627370497 / 2 ^ 53) (4503599627370497 / 2 ^ 53) = 1 + 1 / 2 ^ 52"
    unfolding f64_add_def by (rule round_f64_sum)
  show ?thesis
    unfolding f64_cosine_cell_def f64_dot_def columns_equal_ratings foldl.simps
      f64_normalized_equal_ratings m a b ..
qed

lemma round_f64_fused:
  "round_f64 ((6369051672525773 / 2 ^ 53) * (6369051672525773 / 2 ^ 53)
       + 4503599627370497 / 2 ^ 53) = 1 + 1 / 2 ^ 52"
  using round_f64_up[of "(6369051672525773 / 2 ^ 53) * (6369051672525773 / 2 ^ 53)
       + 4503599627370497 / 2 ^ 53" 0 4503599627370496]
  by (simp add: powr_minus)

lemma round_f64_nonneg:
  assumes "0 \<le> x"
  shows "0 \<le> round_f64 x"
proof (cases "x = 0")
  case True
  then show ?thesis by (simp add: round_f64_def)
next
  case False
  define u where "u = 2 powr (real_of_int \<lfloor>log 2 \<bar>x\<bar>\<rfloor> - 52)"
  define m where "m = \<bar>x\<bar> / u"
  have u: "0 < u" by (simp add: u_def)
  have "0 \<le> m" using u by (simp add: m_def)
  then have n: "0 \<le> \<lfloor>m\<rfloor>" by simp
  have sx: "sgn x = 1" using assms False by simp
  define k where "k = (if m - real_of_int \<lfloor>m\<rfloor> < 1 / 2 then \<lfloor>m\<rfloor>
                    else if 1 / 2 < m - real_of_int \<lfloor>m\<rfloor> then \<lfloor>m\<rfloor> + 1
                    else if even \<lfloor>m\<rfloor> then \<lfloor>m\<rfloor> else \<lfloor>m\<rfloor> + 1)"
  have k: "0 \<le> k" using n by (simp add: k_def)
  have "round_f64 x = sgn x * real_of_int k * u"
    using False by (simp add: round_f64_def Let_def u_def m_def k_def)
  then show ?thesis using k u sx by simp
qed

lemma f64_foldl_nonneg:
  assumes "\<forall>i\<in>set cols. 0 \<le> a i * b i" "0 \<le> acc"
  shows "0 \<le> foldl (\<lambda>acc i. f64_add acc (f64_mul (a i) (b i))) acc cols"
  using assms
proof (induction cols arbitrary: acc)
  case Nil
  then show ?case by simp
next
  case (Cons i cols)
  have "0 \<le> f64_mul (a i) (b i)"
    using Cons.prems(1) by (simp add: f64_mul_def round_f64_nonneg)
  then have "0 \<le> f64_add acc (f64_mul (a i) (b i))"
    using Cons.prems(2) by (simp add: f64_add_def round_f64_nonneg)
  then show ?case using Cons.IH Cons.prems(1) by simp
qed

lemma f64_dot_nonneg: "\<forall>i\<in>set cols. 0 \<le> a i * b i \<Longrightarrow> 0 \<le> f64_dot a b cols"
  unfolding f64_dot_def by (rule f64_foldl_nonneg) simp_all

lemma f64_row_norm_nonneg: "0 \<le> f64_row_norm X u"
  unfolding f64_row_norm_def f64_sqrt_def
  by (intro round_f64_nonneg real_sqrt_ge_zero f64_dot_nonneg) simp

lemma f64_normalized_nonneg: "0 \<le> cell X u i \<Longrightarrow> 0 \<le> f64_normalized X u i"
  using f64_row_norm_nonneg[of X u]
  by (simp add: f64_normalized_def f64_div_def round_f64_nonneg)

lemma f64_cosine_cell_nonneg:
  assumes "\<forall>i\<in>set (columns X). 0 \<le> cell X u i" "\<forall>i\<in>set (columns X). 0 \<le> cell X v i"
  shows "0 \<le> f64_cosine_cell X u v"
  unfolding f64_cosine_cell_def using assms
  by (intro f64_dot_nonneg) (simp add: f64_normalized_nonneg)

lemma user_f64_cosine_nonneg:
  "nonneg_table m \<Longrightarrow> u \<in> set (index m) \<Longrightarrow> v \<in> set (index m) \<Longrightarrow> 0 \<le> f64_cosine_cell m u v"
  by (rule f64_cosine_cell_nonneg) (auto simp: nonneg_table_def)

lemma item_f64_cosine_nonneg:
  "nonneg_table m \<Longrightarrow> i \<in> set (columns m) \<Longrightarrow> j \<in> set (columns m)
     \<Longrightarrow> 0 \<le> f64_cosine_cell (df_T m) i j"
  by (rule f64_cosine_cell_nonneg) (auto simp: nonneg_table_def df_T_def)

lemma wf_equal_ratings: "wf_table equal_ratings_table"
  by (simp add: wf_table_def)

lemma nonneg_equal_ratings: "nonneg_table equal_ratings_table"
  by (simp add: nonneg_table_def cell_equal_ratings)

lemma cosine_equal_ratings: "cosine_cell equal_ratings_table 1 1 = 1"
proof -
  have "(\<Sum>i\<leftarrow>columns equal_ratings_table. (cell equal_ratings_table 1 i)\<^sup>2) = 9 / 2"
    by (simp add: cell_equal_ratings power2_eq_square)
  then have n: "row_norm equal_ratings_table 1 = sqrt (9 / 2)"
    by (simp only: row_norm_def)
  have p: "0 < sqrt (9 / 2 :: real)" by simp
  have "cosine_cell equal_ratings_table 1 1
          = (3 / 2 / sqrt (9 / 2)) * (3 / 2 / sqrt (9 / 2)) + (3 / 2 / sqrt (9 / 2)) * (3 / 2 / sqrt (9 / 2))"
    using p by (simp add: cosine_cell_def normalized_def n cell_equal_ratings)
  also have "\<dots> = (9 / 2) / (sqrt (9 / 2) * sqrt (9 / 2))"
    by (simp add: field_simps)
  also have "\<dots> = 1"
    by (simp only: real_sqrt_mult_self) simp
  finally show ?thesis .
qed

text \<open>
  C10, amended: on a table without negative cells (unique labels, at least one user and one
  movie), every entry of the user similarity matrix and of the item similarity matrix lies
  between 0 and 1 when it is computed exactly; the binary64 entry that the program computes
  is never negative, and it is the exact entry up to rounding, so it may exceed 1 by a
  rounding error.  Every predicted rating that \<open>recommend_user_based\<close> or
  \<open>recommend_item_based\<close> returns is non-negative.
\<close>

theorem similarity_in_unit_interval:
  assumes "wf_table (user_item_matrix cf)" and "nonneg_table (user_item_matrix cf)"
    and "cache_valid cf" and "sorts_descending sv"
  shows "(\<exists>S cf'. compute_user_similarity cf = Inr (S, cf')
            \<and> (\<forall>u\<in>set (index (user_item_matrix cf)). \<forall>v\<in>set (index (user_item_matrix cf)).
                  0 \<le> cell S u v \<and> cell S u v \<le> 1))
       \<and> (\<exists>S cf'. compute_item_similarity cf = Inr (S, cf')
            \<and> (\<forall>i\<in>set (columns (user_item_matrix cf)). \<forall>j\<in>set (columns (user_item_matrix cf)).
                  0 \<le> cell S i j \<and> cell S i j \<le> 1))
       \<and> (\<exists>S. user_similarity_frame_f64 (user_item_matrix cf) = Inr S
            \<and> (\<forall>u\<in>set (index (user_item_matrix cf)). \<forall>v\<in>set (index (user_item_matrix cf)).
                  0 \<le> cell S u v))
       \<and> (\<exists>S. item_similarity_frame_f64 (user_item_matrix cf) = Inr S
            \<and> (\<forall>i\<in>set (columns (user_item_matrix cf)). \<forall>j\<in>set (columns (user_item_matrix cf)).
                  0 \<le> cell S i j))
       \<and> (\<forall>u\<in>set (index (user_item_matrix cf)).
            (\<exists>recs. fst (recommend_user_based sv cf u n) = Inr recs \<and> (\<forall>p\<in>set recs. 0 \<le> snd p))
          \<and> (\<exists>recs. fst (recommend_item_based sv cf u n) = Inr recs \<and> (\<forall>p\<in>set recs. 0 \<le> snd p)))"
proof (intro conjI ballI)
  let ?m = "user_item_matrix cf"
  have ne: "index ?m \<noteq> []" "columns ?m \<noteq> []"
    using assms(1) by (simp_all add: wf_table_def)
  show "\<exists>S cf'. compute_user_similarity cf = Inr (S, cf')
            \<and> (\<forall>u\<in>set (index ?m). \<forall>v\<in>set (index ?m). 0 \<le> cell S u v \<and> cell S u v \<le> 1)"
    using user_cosine_nonneg[OF assms(2)]
    by (simp add: compute_user_similarity_wf[OF assms(1)] cosine_cell_le_1)
  show "\<exists>S cf'. compute_item_similarity cf = Inr (S, cf')
            \<and> (\<forall>i\<in>set (columns ?m). \<forall>j\<in>set (columns ?m). 0 \<le> cell S i j \<and> cell S i j \<le> 1)"
    using item_cosine_nonneg[OF assms(2)]
    by (simp add: compute_item_similarity_wf[OF assms(1)] cosine_cell_le_1)
  show "\<exists>S. user_similarity_frame_f64 ?m = Inr S
            \<and> (\<forall>u\<in>set (index ?m). \<forall>v\<in>set (index ?m). 0 \<le> cell S u v)"
    using user_f64_cosine_nonneg[OF assms(2)] ne
    by (simp add: user_similarity_frame_f64_def)
  show "\<exists>S. item_similarity_frame_f64 ?m = Inr S
            \<and> (\<forall>i\<in>set (columns ?m). \<forall>j\<in>set (columns ?m). 0 \<le> cell S i j)"
    using item_f64_cosine_nonneg[OF assms(2)] ne
    by (simp add: item_similarity_frame_f64_def df_T_def)
next
  fix u assume u: "u \<in> set (index (user_item_matrix cf))"
  have "0 \<le> snd p" if "p \<in> set (head n (sv (unrated_predictions user_prediction (user_item_matrix cf) u)))" for p
    using returned_from_unrated[OF assms(4) that] user_prediction_nonneg[OF assms(2) u] by auto
  then show "\<exists>recs. fst (recommend_user_based sv cf u n) = Inr recs \<and> (\<forall>p\<in>set recs. 0 \<le> snd p)"
    by (simp add: recommend_user_based_value[OF assms(1,3) u])
  have "0 \<le> snd p" if "p \<in> set (head n (sv (unrated_predictions item_prediction (user_item_matrix cf) u)))" for p
    using returned_from_unrated[OF assms(4) that] item_prediction_nonneg[OF assms(2) u] by auto
  then show "\<exists>recs. fst (recommend_item_based sv cf u n) = Inr recs \<and> (\<forall>p\<in>set recs. 0 \<le> snd p)"
    by (simp add: recommend_item_based_value[OF assms(1,3) u])
qed

text \<open>On the example table.\<close>

theorem similarity_in_unit_interval_witness:
  "(\<exists>S cf'. compute_user_similarity (CollaborativeFiltering example_table) = Inr (S, cf')
      \<and> 0 \<le> cell S 1 2 \<and> cell S 1 2 \<le> 1 \<and> 0 \<le> cell S 3 1 \<and> cell S 3 1 \<le> 1)
   \<and> (\<exists>S cf'. compute_item_similarity (CollaborativeFiltering example_table) = Inr (S, cf')
      \<and> 0 \<le> cell S 10 30 \<and> cell S 10 30 \<le> 1)
   \<and> (\<exists>S. user_similarity_frame_f64 example_table = Inr S \<and> 0 \<le> cell S 1 2 \<and> 0 \<le> cell S 3 1)
   \<and> (\<exists>S. item_similarity_frame_f64 example_table = Inr S \<and> 0 \<le> cell S 10 30)
   \<and> (\<exists>recs. fst (recommend_user_based stable_sort_desc
                    (CollaborativeFiltering example_table) 1 5) = Inr recs
         \<and> list_all (\<lambda>p. 0 \<le> snd p) recs)
   \<and> (\<exists>recs. fst (recommend_item_based stable_sort_desc
                    (CollaborativeFiltering example_table) 1 5) = Inr recs
         \<and> list_all (\<lambda>p. 0 \<le> snd p) recs)"
proof -
  have wf: "wf_table (user_item_matrix (CollaborativeFiltering example_table))"
    and nn: "nonneg_table (user_item_matrix (CollaborativeFiltering example_table))"
    by (simp_all add: wf_example_table nonneg_example_table)
  show ?thesis
    using similarity_in_unit_interval[OF wf nn cache_valid_fresh sorts_descending_stable, of 5]
    by (simp add: list_all_iff) blast
qed

text \<open>
  The bound of 1 does not hold of the binary64 entries, so C10 as stated (no entry ever
  exceeds 1) fails of the program.  The table has one user, who gave 1.5 to both movies.
  The squares sum to 4.5 without rounding; its square root rounds to
  \<open>4776788754394329 / 2\<^sup>5\<^sup>1\<close>, each normalised cell \<open>1.5 / norm\<close> to
  \<open>6369051672525773 / 2\<^sup>5\<^sup>3\<close>, the square of that rounds up to \<open>(2\<^sup>5\<^sup>2 + 1) / 2\<^sup>5\<^sup>3\<close>, and
  the sum of the two squares is \<open>1 + 2\<^sup>-\<^sup>5\<^sup>2\<close>, the number printed as 1.0000000000000002.
  With two columns the order of the summation plays no part, and a fused multiply-add
  gives the same number (\<open>round_f64_fused\<close>).  The exact entry is 1.
\<close>

theorem similarity_exceeds_one_in_binary64:
  "wf_table equal_ratings_table \<and> nonneg_table equal_ratings_table
   \<and> index equal_ratings_table = [1] \<and> columns equal_ratings_table = [10, 20]
   \<and> cell equal_ratings_table 1 10 = 3 / 2 \<and> cell equal_ratings_table 1 20 = 3 / 2
   \<and> user_similarity_frame_f64 equal_ratings_table
       = Inr \<lparr>index = [1], columns = [1], cell = f64_cosine_cell equal_ratings_table\<rparr>
   \<and> f64_cosine_cell equal_ratings_table 1 1 = 1 + 1 / 2 ^ 52
   \<and> \<not> f64_cosine_cell equal_ratings_table 1 1 \<le> 1
   \<and> cosine_cell equal_ratings_table 1 1 = 1"
  by (simp add: user_similarity_frame_f64_def f64_cosine_equal_ratings cell_equal_ratings
      wf_equal_ratings nonneg_equal_ratings cosine_equal_ratings)

end
